theory Spec2Isabelle
  imports Main "HOL-Library.Sublist"
begin

section \<open>Python strings and values\<close>

text \<open>
  A Python \<open>str\<close> is modelled as a \<^typ>\<open>string\<close> whose characters are the code points
  0 to 255, one \<^typ>\<open>char\<close> per code point. On that range the character classes below are
  the ones of CPython 3.11: \<open>str.isspace\<close>, \<open>str.lower\<close>, the regular expression class
  \<open>\w\<close> and \<open>str.isprintable\<close>. The tests \<open>s.startswith(p)\<close>, \<open>s.endswith(p)\<close>
  and \<open>p in s\<close> are \<^const>\<open>prefix\<close>, \<^const>\<open>suffix\<close> and \<^const>\<open>sublist\<close> of the list
  library. Python identifiers with a leading underscore lose it, since an Isabelle name
  cannot start with one: \<open>_is_pdf_link\<close> is \<open>is_pdf_link\<close>.
\<close>

definition isspace :: "char \<Rightarrow> bool" where
  "isspace c =
     (let n = (of_char c :: nat)
      in (9 \<le> n \<and> n \<le> 13) \<or> (28 \<le> n \<and> n \<le> 32) \<or> n = 133 \<or> n = 160)"

definition strip :: "string \<Rightarrow> string" where
  \<comment> \<open>\<open>s.strip()\<close>: leading and trailing whitespace removed.\<close>
  "strip s = rev (dropWhile isspace (rev (dropWhile isspace s)))"

definition lower_char :: "char \<Rightarrow> char" where
  "lower_char c =
     (let n = (of_char c :: nat)
      in if (65 \<le> n \<and> n \<le> 90) \<or> (192 \<le> n \<and> n \<le> 222 \<and> n \<noteq> 215)
         then char_of (n + 32) else c)"

definition lower :: "string \<Rightarrow> string" where
  \<comment> \<open>\<open>s.lower()\<close>\<close>
  "lower s = map lower_char s"

datatype error =
    ValueError          \<comment> \<open>raised by \<open>urlparse\<close> and \<open>urljoin\<close> on a malformed host\<close>
  | AttributeError      \<comment> \<open>\<open>att.get\<close> on a value that is not a mapping\<close>
  | JSONDecodeError     \<comment> \<open>\<open>json.loads\<close> on text that is not JSON\<close>
  | RequestException    \<comment> \<open>\<open>session.get\<close> or \<open>raise_for_status\<close> failing\<close>
  | OSError             \<comment> \<open>a file or directory operation failing\<close>
  | DatabaseError       \<comment> \<open>an \<open>sqlite3\<close> operation failing\<close>

text \<open>
  The values \<open>json.loads\<close> returns, which are also the values a caller can hand to the
  classifier. A mapping keeps its items in order. A float is carried as the two things
  the program observes of it: whether it is nonzero (its truth value) and its \<open>str()\<close>.
\<close>

datatype pyval =
    PNone
  | PBool bool
  | PInt int
  | PFloat bool string
  | PStr string
  | PList "pyval list"
  | PDict "(string \<times> pyval) list"

section \<open>The library function \<open>urllib.parse.urlparse\<close>\<close>

text \<open>
  \<open>urlparse\<close> is not code of this repository. The classifier takes the parser as an
  argument, so that what is proved of it holds for every parser. The definition below
  follows \<open>urlsplit\<close> and \<open>urlparse\<close> of CPython 3.11 with the default arguments
  (\<open>scheme=''\<close>, \<open>allow_fragments=True\<close>) on strings of code points 0 to 255; it is
  what the concrete examples run. The validation of a bracketed host (module
  \<open>ipaddress\<close>) is its argument \<open>host_ok\<close>. \<open>_checknetloc\<close> never raises on this range
  of code points and is left out.
\<close>

record parse_result =
  scheme :: string
  netloc :: string
  path :: string
  params :: string
  query :: string
  fragment :: string

definition c0_control_or_space :: "char \<Rightarrow> bool" where
  "c0_control_or_space c = ((of_char c :: nat) \<le> 32)"

definition scheme_char :: "char \<Rightarrow> bool" where
  \<comment> \<open>\<open>scheme_chars\<close>: ASCII letters, digits, \<open>+\<close>, \<open>-\<close>, \<open>.\<close>\<close>
  "scheme_char c =
     (let n = (of_char c :: nat)
      in (97 \<le> n \<and> n \<le> 122) \<or> (65 \<le> n \<and> n \<le> 90) \<or> (48 \<le> n \<and> n \<le> 57)
         \<or> n = 43 \<or> n = 45 \<or> n = 46)"

definition ascii_alpha :: "char \<Rightarrow> bool" where
  \<comment> \<open>\<open>c.isascii() and c.isalpha()\<close>\<close>
  "ascii_alpha c =
     (let n = (of_char c :: nat) in (97 \<le> n \<and> n \<le> 122) \<or> (65 \<le> n \<and> n \<le> 90))"

definition before :: "char \<Rightarrow> string \<Rightarrow> string" where
  \<comment> \<open>the text before the first \<open>c\<close> (all of it when there is none)\<close>
  "before c s = takeWhile (\<lambda>x. x \<noteq> c) s"

definition after :: "char \<Rightarrow> string \<Rightarrow> string" where
  \<comment> \<open>the text after the first \<open>c\<close> (empty when there is none)\<close>
  "after c s = drop 1 (dropWhile (\<lambda>x. x \<noteq> c) s)"

definition split_scheme :: "string \<Rightarrow> string \<times> string" where
  \<comment> \<open>\<open>i = url.find(':')\<close>; a scheme is split off when \<open>i > 0\<close>, the first character is an
      ASCII letter and every character of \<open>url[:i]\<close> is in \<open>scheme_chars\<close>.\<close>
  "split_scheme url =
     (let pre = before CHR '':'' url
      in if CHR '':'' \<in> set url \<and> pre \<noteq> [] \<and> ascii_alpha (hd url) \<and> list_all scheme_char pre
         then (lower pre, after CHR '':'' url)
         else ([], url))"

definition netloc_delim :: "char \<Rightarrow> bool" where
  "netloc_delim c = (c = CHR ''/'' \<or> c = CHR ''?'' \<or> c = CHR ''#'')"

definition splitnetloc :: "string \<Rightarrow> string \<times> string" where
  \<comment> \<open>\<open>_splitnetloc(url, 2)\<close>: the text from position 2 up to the first of \<open>/ ? #\<close>, and
      the rest.\<close>
  "splitnetloc url =
     (takeWhile (\<lambda>c. \<not> netloc_delim c) (drop 2 url),
      dropWhile (\<lambda>c. \<not> netloc_delim c) (drop 2 url))"

definition urlsplit ::
  "(string \<Rightarrow> bool) \<Rightarrow> string \<Rightarrow> error + (string \<times> string \<times> string \<times> string \<times> string)" where
  "urlsplit host_ok url0 =
     (let url1 = dropWhile c0_control_or_space url0;
          url2 = filter (\<lambda>c. c \<noteq> CHR 0x09 \<and> c \<noteq> CHR 0x0D \<and> c \<noteq> CHR 0x0A) url1;
          (sch, url3) = split_scheme url2;
          (nl, url4) = (if take 2 url3 = ''//'' then splitnetloc url3 else ([], url3));
          lb = (CHR ''['' \<in> set nl);
          rb = (CHR '']'' \<in> set nl)
      in if lb \<noteq> rb then Inl ValueError
         else if lb \<and> rb \<and> \<not> host_ok (before CHR '']'' (after CHR ''['' nl)) then Inl ValueError
         else
           (let (url5, frag) =
                  (if CHR ''#'' \<in> set url4 then (before CHR ''#'' url4, after CHR ''#'' url4)
                   else (url4, []));
                (url6, qry) =
                  (if CHR ''?'' \<in> set url5 then (before CHR ''?'' url5, after CHR ''?'' url5)
                   else (url5, []))
            in Inr (sch, nl, url6, qry, frag)))"

definition uses_params :: "string list" where
  "uses_params = ['''', ''ftp'', ''hdl'', ''prospero'', ''http'', ''imap'', ''https'', ''shttp'',
     ''rtsp'', ''rtsps'', ''rtspu'', ''sip'', ''sips'', ''mms'', ''sftp'', ''tel'']"

definition basename :: "string \<Rightarrow> string" where
  \<comment> \<open>\<open>os.path.basename\<close> (POSIX): the text after the last \<open>/\<close>\<close>
  "basename p = rev (takeWhile (\<lambda>c. c \<noteq> CHR ''/'') (rev p))"

definition splitparams :: "string \<Rightarrow> string \<times> string" where
  \<comment> \<open>\<open>_splitparams\<close>: the first \<open>;\<close> at or after the last \<open>/\<close> ends the path.\<close>
  "splitparams url =
     (let seg = basename url;
          dir = take (length url - length seg) url
      in if CHR '';'' \<in> set seg then (dir @ before CHR '';'' seg, after CHR '';'' seg)
         else (url, []))"

definition urlparse :: "(string \<Rightarrow> bool) \<Rightarrow> string \<Rightarrow> error + parse_result" where
  "urlparse host_ok url =
     (case urlsplit host_ok url of
        Inl e \<Rightarrow> Inl e
      | Inr (sch, nl, p, qry, frag) \<Rightarrow>
          (let (p', prm) = (if sch \<in> set uses_params \<and> CHR '';'' \<in> set p then splitparams p
                            else (p, []))
           in Inr \<lparr>scheme = sch, netloc = nl, path = p', params = prm, query = qry,
                    fragment = frag\<rparr>))"

definition refuse_brackets :: "string \<Rightarrow> bool" where
  \<comment> \<open>A host validator for the examples, none of which reaches the validation of a
      bracketed host.\<close>
  "refuse_brackets h = False"

section \<open>URL Classifier\<close>

text \<open>
  \<open>ShadowMassPDFHarvester._is_pdf_link\<close> (the harvester). A result \<open>Inl e\<close> is the
  exception \<open>e\<close> leaving the function: the body has no handler around \<open>urlparse\<close>.
\<close>

definition isinstance_str :: "pyval \<Rightarrow> bool" where
  "isinstance_str v = (case v of PStr s \<Rightarrow> True | _ \<Rightarrow> False)"

definition is_pdf_link :: "(string \<Rightarrow> error + parse_result) \<Rightarrow> pyval \<Rightarrow> error + bool" where
  "is_pdf_link up href0 =
     (case href0 of
        PStr s \<Rightarrow>
          (let href = strip s
           in if sublist ''controller=attachment'' href \<and> sublist ''id_attachment='' href
              then Inr True
              else if prefix ''http'' href \<or> prefix ''/'' href
              then (case up href of
                      Inl e \<Rightarrow> Inl e
                    | Inr parsed \<Rightarrow>
                        (let path_has_pdf = suffix ''.pdf'' (lower (path parsed));
                             query_has_pdf = sublist ''.pdf'' (lower (query parsed))
                         in Inr (path_has_pdf \<or> query_has_pdf)))
              else Inr False)
      | _ \<Rightarrow> Inr False)"

text \<open>\<open>ADEMEHarvester.is_pdf_url\<close> (the detective variant); its callers pass strings.\<close>

definition pdf_indicators :: "string list" where
  "pdf_indicators = [''.pdf'', ''/pdf'', ''download'', ''attachment'']"

definition is_pdf_url :: "(string \<Rightarrow> error + parse_result) \<Rightarrow> string \<Rightarrow> error + bool" where
  "is_pdf_url up url =
     (case up url of
        Inl e \<Rightarrow> Inl e
      | Inr parsed \<Rightarrow>
          Inr (list_ex (\<lambda>indicator. sublist indicator (lower (path parsed))) pdf_indicators))"


section \<open>Truth values and text of Python values\<close>




function decimal :: "int \<Rightarrow> string" where
  \<comment> \<open>the decimal digits of an integer that is not negative\<close>
  "decimal i =
     (if i < 10 then [''0123456789'' ! nat i] else decimal (i div 10) @ [''0123456789'' ! nat (i mod 10)])"
  by pat_completeness auto
termination
  by (relation "measure nat") auto

declare decimal.simps [simp del]

definition str_int :: "int \<Rightarrow> string" where
  \<comment> \<open>\<open>str(i)\<close> of an integer\<close>
  "str_int i = (if i < 0 then CHR ''-'' # decimal (- i) else decimal i)"

definition isprintable :: "char \<Rightarrow> bool" where
  "isprintable c =
     (let n = (of_char c :: nat)
      in (32 \<le> n \<and> n \<le> 126) \<or> (161 \<le> n \<and> n \<le> 172) \<or> 174 \<le> n)"

definition hex_digit :: "nat \<Rightarrow> char" where
  "hex_digit d = (if d < 10 then char_of (48 + d) else char_of (87 + d))"

definition repr_char :: "char \<Rightarrow> char \<Rightarrow> string" where
  \<comment> \<open>one character inside \<open>repr\<close> of a string delimited by the quote \<open>q\<close>\<close>
  "repr_char q c =
     (if c = q \<or> c = CHR 0x5C then [CHR 0x5C, c]
      else if c = CHR 0x09 then [CHR 0x5C, CHR ''t'']
      else if c = CHR 0x0A then [CHR 0x5C, CHR ''n'']
      else if c = CHR 0x0D then [CHR 0x5C, CHR ''r'']
      else if isprintable c then [c]
      else [CHR 0x5C, CHR ''x'', hex_digit (of_char c div 16), hex_digit (of_char c mod 16)])"

definition repr_str :: "string \<Rightarrow> string" where
  \<comment> \<open>\<open>repr(s)\<close>: single quotes, unless the text has a single quote and no double quote\<close>
  "repr_str s =
     (let q = (if CHR 0x27 \<in> set s \<and> CHR 0x22 \<notin> set s then CHR 0x22 else CHR 0x27)
      in q # concat (map (repr_char q) s) @ [q])"

fun join :: "string \<Rightarrow> string list \<Rightarrow> string" where
  "join sep [] = []"
| "join sep [x] = x"
| "join sep (x # y # ys) = x @ sep @ join sep (y # ys)"

fun py_repr :: "pyval \<Rightarrow> string" where
  "py_repr PNone = ''None''"
| "py_repr (PBool b) = (if b then ''True'' else ''False'')"
| "py_repr (PInt i) = str_int i"
| "py_repr (PFloat nonzero text) = text"
| "py_repr (PStr s) = repr_str s"
| "py_repr (PList xs) = ''['' @ join '', '' (map py_repr xs) @ '']''"
| "py_repr (PDict kvs) =
     ''{'' @ join '', '' (map (\<lambda>kv. repr_str (fst kv) @ '': '' @ py_repr (snd kv)) kvs) @ ''}''"

definition py_str :: "pyval \<Rightarrow> string" where
  \<comment> \<open>\<open>str(v)\<close>, which is what an f-string field \<open>{v}\<close> writes\<close>
  "py_str v = (case v of PStr s \<Rightarrow> s | _ \<Rightarrow> py_repr v)"

section \<open>Extraction strategies\<close>

text \<open>
  \<open>urllib.parse.urljoin\<close> and \<open>json.loads\<close> are library functions; the strategies take
  them as the arguments \<open>uj\<close> and \<open>loads\<close>. Either can raise, so they return a sum. A
  strategy builds a set of URLs. Where an exception can leave a function the function
  returns a sum; \<open>union_all\<close> is a loop that adds each step's URLs to the set and stops
  at the first step that raises.
\<close>

fun union_all :: "(error + 'a set) list \<Rightarrow> error + 'a set" where
  "union_all [] = Inr {}"
| "union_all (r # rs) =
     (case r of
        Inl e \<Rightarrow> Inl e
      | Inr s \<Rightarrow> (case union_all rs of Inl e \<Rightarrow> Inl e | Inr t \<Rightarrow> Inr (s \<union> t)))"

definition add_joined :: "(string \<Rightarrow> string \<Rightarrow> error + string) \<Rightarrow> string \<Rightarrow> string \<Rightarrow> error + string set" where
  \<comment> \<open>\<open>pdf_urls.add(urljoin(base_url, v))\<close>\<close>
  "add_joined uj base_url v = (case uj base_url v of Inl e \<Rightarrow> Inl e | Inr u \<Rightarrow> Inr {u})"

definition has_pdf_text :: "pyval \<Rightarrow> bool" where
  \<comment> \<open>\<open>isinstance(value, str) and '.pdf' in value.lower()\<close>\<close>
  "has_pdf_text v = (case v of PStr s \<Rightarrow> sublist ''.pdf'' (lower s) | _ \<Rightarrow> False)"

text \<open>\<open>_find_pdf_in_json\<close>: the test for a string is made on the values of a mapping only;
  an item of a list is handed to the recursive call, which returns the empty set for
  anything that is neither a mapping nor a list.\<close>

fun find_pdf_in_json ::
  "(string \<Rightarrow> string \<Rightarrow> error + string) \<Rightarrow> pyval \<Rightarrow> string \<Rightarrow> error + string set" where
  "find_pdf_in_json uj (PDict kvs) base_url =
     union_all (map (\<lambda>kv. if has_pdf_text (snd kv)
                          then add_joined uj base_url (py_str (snd kv))
                          else find_pdf_in_json uj (snd kv) base_url) kvs)"
| "find_pdf_in_json uj (PList items) base_url =
     union_all (map (\<lambda>item. find_pdf_in_json uj item base_url) items)"
| "find_pdf_in_json uj v base_url = Inr {}"

definition script_text :: "string option \<Rightarrow> string" where
  \<comment> \<open>\<open>script.string or '{}'\<close>\<close>
  "script_text body = (case body of None \<Rightarrow> ''{}'' | Some t \<Rightarrow> if t = [] then ''{}'' else t)"

definition extract_from_json_ld ::
  "(string \<Rightarrow> error + pyval) \<Rightarrow> (string \<Rightarrow> string \<Rightarrow> error + string) \<Rightarrow> string option list
     \<Rightarrow> string \<Rightarrow> string set" where
  \<comment> \<open>\<open>scripts\<close>: \<open>script.string\<close> of each \<open>application/ld+json\<close> script of the page. An
      exception of \<open>json.loads\<close> or of the walk drops that script.\<close>
  "extract_from_json_ld loads uj scripts base_url =
     \<Union> (set (map (\<lambda>body. case loads (script_text body) of
                                Inl e \<Rightarrow> {}
                              | Inr data \<Rightarrow> (case find_pdf_in_json uj data base_url of
                                              Inl e \<Rightarrow> {}
                                            | Inr urls \<Rightarrow> urls)) scripts))"













text \<open>Stand-ins for the two library functions in the examples: each agrees with the
  library on the arguments the examples give it (a base URL with a host and a
  root-relative reference; three JSON texts, the first the one of the spec's attribute
  scenario).\<close>

definition example_urljoin :: "string \<Rightarrow> string \<Rightarrow> error + string" where
  "example_urljoin base_url ref = Inr (''https://x.test'' @ ref)"


section \<open>The harvester and its environment\<close>

type_synonym bytes = string

text \<open>A row of the table \<open>harvested_pdfs\<close>; the column \<open>id\<close> is \<open>row_id\<close>.\<close>

record harvested_pdf =
  row_id :: nat
  url :: string
  filename :: string
  file_size :: nat
  file_hash :: string
  source_feed :: string
  harvest_date :: int
  status :: string
  article_title :: string
  article_url :: string

record database =
  harvested_pdfs :: "harvested_pdf list"   \<comment> \<open>the rows, in order of \<open>id\<close>\<close>
  sqlite_sequence :: nat                   \<comment> \<open>the largest \<open>id\<close> ever given (\<open>AUTOINCREMENT\<close>)\<close>

text \<open>What \<open>streamlit\<close> is asked to show, one constructor per call of the source.\<close>

datatype message =
    Info_download string          \<comment> \<open>\<open>st.info\<close>: download of this URL starts\<close>
  | Warning_non_pdf string        \<comment> \<open>\<open>st.warning\<close>: the bytes of this URL are not a PDF\<close>
  | Warning_too_small string      \<comment> \<open>\<open>st.warning\<close>: the file of this name is too small\<close>
  | Success_saved string nat      \<comment> \<open>\<open>st.success\<close>: file name and size\<close>
  | Error_download string error   \<comment> \<open>\<open>st.error\<close>: the download of this URL failed\<close>
  | Error_db error                \<comment> \<open>\<open>st.error\<close>: the database write failed\<close>
  | Error_scan string error       \<comment> \<open>\<open>st.error\<close>: the scan of this page failed\<close>

text \<open>
  The state the harvester reads and writes: its two in-run sets, the database file, the
  files on disk, the messages shown, the GET requests sent for candidate URLs and the
  number of times the clock has been read.
\<close>

record world =
  downloaded_urls :: "string set"
  failed_urls :: "string set"
  db :: database
  files :: "string \<rightharpoonup> bytes"
  shown :: "message list"
  requested :: "string list"
  clock_reads :: nat

text \<open>
  What the harvester does not decide: the answer to the \<open>n\<close>-th GET request (the body
  of a response with a success status, or the exception of \<open>session.get\<close> or
  \<open>raise_for_status\<close>), whether the bytes can be written to a path, what a write that
  fails leaves at the path (nothing new when \<open>open\<close> itself fails, else the file it
  created or truncated with the bytes that got through), whether \<open>os.remove\<close> of a path
  succeeds, whether a directory can be made, the clock (microseconds since the epoch at the \<open>n\<close>-th reading, not
  negative), MD5, the URL
  parser, whether the database accepts a write, and the candidate URLs of a page: the
  exception of the page fetch, or the union of the strategies' sets in the order the
  loop visits it.
\<close>

record env =
  http_get :: "nat \<Rightarrow> string \<Rightarrow> error + bytes"
  can_write :: "string \<Rightarrow> bool"
  failed_write :: "string \<Rightarrow> bytes \<Rightarrow> bytes option"
  can_remove :: "string \<Rightarrow> bool"
  can_makedirs :: "string \<Rightarrow> bool"
  clock :: "nat \<Rightarrow> int"
  md5_hexdigest :: "string \<Rightarrow> string"
  url_parser :: "string \<Rightarrow> error + parse_result"
  db_writable :: bool
  page_candidates :: "string \<Rightarrow> error + string list"

definition say :: "message \<Rightarrow> world \<Rightarrow> world" where
  "say m w = w\<lparr>shown := shown w @ [m]\<rparr>"

definition read_clock :: "env \<Rightarrow> world \<Rightarrow> int \<times> world" where
  "read_clock e w = (clock e (clock_reads w), w\<lparr>clock_reads := Suc (clock_reads w)\<rparr>)"

definition word_char :: "char \<Rightarrow> bool" where
  \<comment> \<open>the class \<open>\w\<close> of \<open>re\<close> on code points 0 to 255\<close>
  "word_char c =
     (let n = (of_char c :: nat)
      in (48 \<le> n \<and> n \<le> 57) \<or> (65 \<le> n \<and> n \<le> 90) \<or> n = 95 \<or> (97 \<le> n \<and> n \<le> 122)
         \<or> n = 170 \<or> n = 178 \<or> n = 179 \<or> n = 181 \<or> n = 185 \<or> n = 186
         \<or> (188 \<le> n \<and> n \<le> 190) \<or> (192 \<le> n \<and> n \<le> 214) \<or> (216 \<le> n \<and> n \<le> 246)
         \<or> 248 \<le> n)"

definition safe_title_char :: "char \<Rightarrow> bool" where
  \<comment> \<open>the characters \<open>re.sub(r'[^\w\-. ]', '', title)\<close> keeps\<close>
  "safe_title_char c = (word_char c \<or> c = CHR ''-'' \<or> c = CHR ''.'' \<or> c = CHR '' '')"

definition path_join :: "string \<Rightarrow> string \<Rightarrow> string" where
  \<comment> \<open>\<open>os.path.join(a, b)\<close> (POSIX)\<close>
  "path_join a b =
     (if prefix ''/'' b then b else if a = [] \<or> suffix ''/'' a then a @ b else a @ ''/'' @ b)"

definition generate_filename :: "env \<Rightarrow> world \<Rightarrow> string \<Rightarrow> string \<Rightarrow> (error + string) \<times> world" where
  \<comment> \<open>the first statement of \<open>_download_pdf_advanced\<close>; \<open>int(time.time())\<close> is the clock
      in whole seconds\<close>
  "generate_filename e w pdf_url title =
     (if title \<noteq> []
      then (let cleaned = strip (filter safe_title_char title);
                safe_title = (if cleaned = [] then ''document'' else cleaned);
                (t, w1) = read_clock e w
            in (Inr (safe_title @ ''_'' @ str_int (t div 1000000) @ ''.pdf''), w1))
      else (case url_parser e pdf_url of
              Inl err \<Rightarrow> (Inl err, w)
            | Inr parsed \<Rightarrow>
                (let b = basename (path parsed)
                 in if b \<noteq> [] then (Inr b, w)
                    else (let (t, w1) = read_clock e w
                          in (Inr (''document_'' @ str_int (t div 1000000) @ ''.pdf''), w1)))))"

text \<open>
  \<open>_download_pdf_advanced\<close>. Every exception inside it is caught by its handler, which
  reports the failure and returns false: the file of a write that failed stays as the
  failure left it, and so does a file that is too small when \<open>os.remove\<close> fails.
\<close>

definition download_pdf_advanced :: "env \<Rightarrow> world \<Rightarrow> string \<Rightarrow> string \<Rightarrow> string \<Rightarrow> bool \<times> world" where
  "download_pdf_advanced e w pdf_url download_dir title =
     (case generate_filename e w pdf_url title of
        (Inl err, w1) \<Rightarrow> (False, say (Error_download pdf_url err) w1)
      | (Inr fname, w1) \<Rightarrow>
          (let filepath = path_join download_dir fname;
               w2 = say (Info_download pdf_url) w1;
               resp = http_get e (length (requested w2)) pdf_url;
               w3 = w2\<lparr>requested := requested w2 @ [pdf_url]\<rparr>
           in case resp of
                Inl err \<Rightarrow> (False, say (Error_download pdf_url err) w3)
              | Inr content \<Rightarrow>
                  if \<not> prefix ''%PDF'' content
                  then (False, say (Warning_non_pdf pdf_url) w3)
                  else if \<not> can_write e filepath
                  then (False,
                        say (Error_download pdf_url OSError)
                          (case failed_write e filepath content of
                             None \<Rightarrow> w3
                           | Some left \<Rightarrow> w3\<lparr>files := (files w3)(filepath \<mapsto> left)\<rparr>))
                  else (let w4 = w3\<lparr>files := (files w3)(filepath \<mapsto> content)\<rparr>
                        in case files w4 filepath of
                             None \<Rightarrow> (False, say (Error_download pdf_url OSError) w4)
                           | Some data \<Rightarrow>
                               (let size = length data
                                in if size < 1000
                                   then (if can_remove e filepath
                                         then (False, say (Warning_too_small fname)
                                                 (w4\<lparr>files := (files w4)(filepath := None)\<rparr>))
                                         else (False, say (Error_download pdf_url OSError) w4))
                                   else (True, say (Success_saved fname size) w4)))))"

section \<open>Persistence Store\<close>

text \<open>
  \<open>init_database\<close> runs \<open>CREATE TABLE IF NOT EXISTS\<close>: a database file without the
  table (\<open>None\<close>) gets the empty table, and a table that exists is left as it is. The
  column \<open>url\<close> is declared \<open>UNIQUE\<close>.
\<close>

definition init_database :: "database option \<Rightarrow> database" where
  "init_database file =
     (case file of None \<Rightarrow> \<lparr>harvested_pdfs = [], sqlite_sequence = 0\<rparr> | Some d \<Rightarrow> d)"

text \<open>
  \<open>INSERT OR REPLACE\<close> of a row that gives no \<open>id\<close>: the rows in conflict with the new
  one on the \<open>UNIQUE\<close> column are deleted, and the new row gets the next \<open>id\<close> of the
  \<open>AUTOINCREMENT\<close> sequence.
\<close>

definition insert_or_replace :: "database \<Rightarrow> harvested_pdf \<Rightarrow> database" where
  "insert_or_replace d r =
     (let new_id = Suc (foldr max (map row_id (harvested_pdfs d)) (sqlite_sequence d))
      in \<lparr>harvested_pdfs = filter (\<lambda>x. url x \<noteq> url r) (harvested_pdfs d) @ [r\<lparr>row_id := new_id\<rparr>],
          sqlite_sequence = new_id\<rparr>)"

text \<open>\<open>_log_to_database\<close>; an exception of \<open>sqlite3\<close> is caught and reported.\<close>

definition log_to_database :: "env \<Rightarrow> world \<Rightarrow> string \<Rightarrow> string \<Rightarrow> string \<Rightarrow> string \<Rightarrow> world" where
  "log_to_database e w pdf_url title page_url st =
     (let hash = md5_hexdigest e pdf_url;
          (now, w1) = read_clock e w
      in if db_writable e
         then w1\<lparr>db := insert_or_replace (db w1)
                  \<lparr>row_id = 0, url = pdf_url, filename = title, file_size = 0, file_hash = hash,
                   source_feed = ''streamlit_app'', harvest_date = now, status = st,
                   article_title = title, article_url = page_url\<rparr>\<rparr>
         else say (Error_db DatabaseError) w1)"

text \<open>A sequence of writes to the store: the arguments of each call, oldest first.\<close>

fun log_all :: "env \<Rightarrow> world \<Rightarrow> (string \<times> string \<times> string \<times> string) list \<Rightarrow> world" where
  "log_all e w [] = w"
| "log_all e w ((pdf_url, title, page_url, st) # calls) =
     log_all e (log_to_database e w pdf_url title page_url st) calls"

section \<open>Harvest Orchestrator\<close>

text \<open>The body of the loop \<open>for pdf_url in pdf_urls\<close> of \<open>scan_url_for_pdfs\<close>.\<close>

definition scan_candidate ::
  "env \<Rightarrow> string \<Rightarrow> string \<Rightarrow> string \<Rightarrow> string \<Rightarrow> string list \<times> world \<Rightarrow> string list \<times> world" where
  "scan_candidate e page_url download_dir title pdf_url acc =
     (let (downloaded, w) = acc
      in if pdf_url \<notin> downloaded_urls w
         then (case download_pdf_advanced e w pdf_url download_dir title of
                 (True, w1) \<Rightarrow>
                   (downloaded @ [pdf_url],
                    log_to_database e (w1\<lparr>downloaded_urls := insert pdf_url (downloaded_urls w1)\<rparr>)
                      pdf_url title page_url ''success'')
               | (False, w1) \<Rightarrow>
                   (downloaded,
                    log_to_database e (w1\<lparr>failed_urls := insert pdf_url (failed_urls w1)\<rparr>)
                      pdf_url title page_url ''failed''))
         else (downloaded, w))"

fun scan_loop ::
  "env \<Rightarrow> string \<Rightarrow> string \<Rightarrow> string \<Rightarrow> string list \<Rightarrow> string list \<times> world \<Rightarrow> string list \<times> world" where
  "scan_loop e page_url download_dir title [] acc = acc"
| "scan_loop e page_url download_dir title (pdf_url # pdf_urls) acc =
     scan_loop e page_url download_dir title pdf_urls
       (scan_candidate e page_url download_dir title pdf_url acc)"

text \<open>\<open>scan_url_for_pdfs\<close>: a failure of the page fetch or of \<open>os.makedirs\<close> is caught by
  the outer handler, which reports it and returns the empty list.\<close>

definition scan_url_for_pdfs :: "env \<Rightarrow> world \<Rightarrow> string \<Rightarrow> string \<Rightarrow> string \<Rightarrow> string list \<times> world" where
  "scan_url_for_pdfs e w page_url download_dir title =
     (case page_candidates e page_url of
        Inl err \<Rightarrow> ([], say (Error_scan page_url err) w)
      | Inr pdf_urls \<Rightarrow>
          if can_makedirs e download_dir
          then scan_loop e page_url download_dir title pdf_urls ([], w)
          else ([], say (Error_scan page_url OSError) w))"

section \<open>An example environment\<close>

text \<open>
  A server that answers \<open>a.pdf\<close> with 1000 bytes that start with the PDF header,
  \<open>small.pdf\<close> with 8 such bytes, \<open>page.pdf\<close> with an HTML page, and fails on any other
  URL; a disk and a database that accept every write; a clock that starts at
  1700000000 seconds and advances one microsecond per reading; the MD5 digests of the
  three URLs; the page \<open>article\<close> with the three URLs as candidates, the page
  \<open>single\<close> with the first one and the page \<open>stub\<close> with the second.
\<close>

definition example_env :: env where
  "example_env =
     \<lparr>http_get = (\<lambda>n u.
         if u = ''https://x.test/a.pdf'' then Inr (''%PDF'' @ replicate 996 CHR ''x'')
         else if u = ''https://x.test/small.pdf'' then Inr ''%PDF-1.4''
         else if u = ''https://x.test/page.pdf'' then Inr ''<html></html>''
         else Inl RequestException),
      can_write = (\<lambda>p. True),
      failed_write = (\<lambda>p c. None),
      can_remove = (\<lambda>p. True),
      can_makedirs = (\<lambda>d. True),
      clock = (\<lambda>n. 1700000000000000 + int n),
      md5_hexdigest = (\<lambda>u.
         if u = ''https://x.test/a.pdf'' then ''e7652efdd4facde9b1d93bb0ddc5c5ea''
         else if u = ''https://x.test/small.pdf'' then ''fbd0d402ba8a0f67f42c4356b720258c''
         else if u = ''https://x.test/page.pdf'' then ''ece25b473e78cc517fc63644f08a7459''
         else []),
      url_parser = urlparse refuse_brackets,
      db_writable = True,
      page_candidates = (\<lambda>p.
         if p = ''https://x.test/article''
         then Inr [''https://x.test/a.pdf'', ''https://x.test/small.pdf'', ''https://x.test/page.pdf'']
         else if p = ''https://x.test/single'' then Inr [''https://x.test/a.pdf'']
         else if p = ''https://x.test/stub'' then Inr [''https://x.test/small.pdf'']
         else Inl RequestException)\<rparr>"

definition html_env :: env where
  \<comment> \<open>the same, with a server that answers every URL with an HTML page\<close>
  "html_env = example_env\<lparr>http_get := (\<lambda>n u. Inr ''<html></html>'')\<rparr>"

definition stuck_env :: env where
  \<comment> \<open>the same, with a disk on which \<open>os.remove\<close> fails\<close>
  "stuck_env = example_env\<lparr>can_remove := (\<lambda>p. False)\<rparr>"

definition new_harvester :: world where
  \<comment> \<open>\<open>__init__\<close> on a new database file and an empty disk\<close>
  "new_harvester =
     \<lparr>downloaded_urls = {}, failed_urls = {}, db = init_database None, files = Map.empty,
      shown = [], requested = [], clock_reads = 0\<rparr>"

section \<open>Properties of the URL Classifier\<close>

lemma sublist_dropWhile:
  "sublist p s \<Longrightarrow> p \<noteq> [] \<Longrightarrow> \<not> P (hd p) \<Longrightarrow> sublist p (dropWhile P s)"
proof (induction s)
  case Nil
  then show ?case by simp
next
  case (Cons y ys)
  show ?case
  proof (cases "P y")
    case False
    with Cons.prems show ?thesis by simp
  next
    case True
    from Cons.prems(1) have "prefix p (y # ys) \<or> sublist p ys"
      by (simp add: sublist_Cons_right)
    moreover have "\<not> prefix p (y # ys)"
    proof
      assume "prefix p (y # ys)"
      with Cons.prems(2) have "hd p = y" by (cases p) auto
      with True Cons.prems(3) show False by simp
    qed
    ultimately have "sublist p ys" by blast
    with Cons True show ?thesis by simp
  qed
qed

text \<open>Stripping whitespace keeps every occurrence of a text that neither starts nor ends
  with whitespace.\<close>

lemma sublist_strip:
  assumes "sublist p s" and "p \<noteq> []" and "\<not> isspace (hd p)" and "\<not> isspace (last p)"
  shows "sublist p (strip s)"
proof -
  have "sublist p (dropWhile isspace s)"
    using assms(1-3) by (rule sublist_dropWhile)
  then have "sublist (rev p) (rev (dropWhile isspace s))"
    by (simp add: sublist_rev)
  moreover have "\<not> isspace (hd (rev p))"
    using assms(2,4) by (simp add: hd_rev)
  ultimately have "sublist (rev p) (dropWhile isspace (rev (dropWhile isspace s)))"
    using assms(2) by (intro sublist_dropWhile) auto
  then have "sublist (rev (rev p)) (rev (dropWhile isspace (rev (dropWhile isspace s))))"
    by (simp only: sublist_rev)
  then show ?thesis by (simp add: strip_def)
qed

text \<open>
  C1, as the claim states it, fails for the harvester's classifier: the relative URL
  \<open>docs/report.pdf\<close> has a path ending in \<open>.pdf\<close>, and \<open>_is_pdf_link\<close> returns false
  for it, because it parses only a string that starts with \<open>http\<close> or \<open>/\<close>.
\<close>

theorem C1_relative_url_counterexample:
  "urlparse refuse_brackets ''docs/report.pdf''
     = Inr \<lparr>scheme = [], netloc = [], path = ''docs/report.pdf'', params = [], query = [],
            fragment = []\<rparr>
   \<and> suffix ''.pdf'' (lower ''docs/report.pdf'')
   \<and> is_pdf_link (urlparse refuse_brackets) (PStr ''docs/report.pdf'') = Inr False"
  by code_simp

text \<open>
  C1 (amended). For every parser \<open>up\<close> and every string \<open>u\<close>: if \<open>u\<close>, stripped of
  surrounding whitespace, starts with \<open>http\<close> or \<open>/\<close> and the path component of the
  stripped string ends in \<open>.pdf\<close> when lowercased, then \<open>_is_pdf_link\<close> returns true;
  and if the path component of \<open>u\<close> ends in \<open>.pdf\<close> when lowercased, then \<open>is_pdf_url\<close>
  of the detective variant returns true, whether \<open>u\<close> is absolute or relative.
\<close>

theorem C1_path_rule:
  "((prefix ''http'' (strip u) \<or> prefix ''/'' (strip u)) \<and> up (strip u) = Inr p
      \<and> suffix ''.pdf'' (lower (path p))
     \<longrightarrow> is_pdf_link up (PStr u) = Inr True)
   \<and> (up u = Inr q \<and> suffix ''.pdf'' (lower (path q)) \<longrightarrow> is_pdf_url up u = Inr True)"
  by (auto simp: is_pdf_link_def is_pdf_url_def pdf_indicators_def Let_def)

theorem C1_path_rule_witness:
  "is_pdf_link (urlparse refuse_brackets) (PStr '' /docs/Report.PDF '') = Inr True
   \<and> is_pdf_url (urlparse refuse_brackets) ''docs/Report.PDF'' = Inr True"
proof -
  let ?p = "\<lparr>scheme = [], netloc = [], path = ''/docs/Report.PDF'', params = [], query = [],
              fragment = []\<rparr>"
  let ?q = "\<lparr>scheme = [], netloc = [], path = ''docs/Report.PDF'', params = [], query = [],
              fragment = []\<rparr>"
  have a: "prefix ''http'' (strip '' /docs/Report.PDF '') \<or> prefix ''/'' (strip '' /docs/Report.PDF '')"
    by code_simp
  have b: "urlparse refuse_brackets (strip '' /docs/Report.PDF '') = Inr ?p"
    by code_simp
  have c: "suffix ''.pdf'' (lower (path ?p))"
    by code_simp
  have d: "urlparse refuse_brackets ''docs/Report.PDF'' = Inr ?q"
    by code_simp
  have e: "suffix ''.pdf'' (lower (path ?q))"
    by code_simp
  from C1_path_rule [where u = "'' /docs/Report.PDF ''" and up = "urlparse refuse_brackets"
      and p = ?p] a b c
  have 1: "is_pdf_link (urlparse refuse_brackets) (PStr '' /docs/Report.PDF '') = Inr True"
    by blast
  from C1_path_rule [where u = "''docs/Report.PDF''" and up = "urlparse refuse_brackets"
      and q = ?q] d e
  have 2: "is_pdf_url (urlparse refuse_brackets) ''docs/Report.PDF'' = Inr True"
    by blast
  from 1 2 show ?thesis by simp
qed

text \<open>
  C6. For every string that contains both \<open>controller=attachment\<close> and
  \<open>id_attachment=\<close>, \<open>_is_pdf_link\<close> returns true, whatever the parser and whatever
  the rest of the string is: the parser is not reached.
\<close>

theorem C6_attachment_rule:
  assumes "sublist ''controller=attachment'' u" and "sublist ''id_attachment='' u"
  shows "is_pdf_link up (PStr u) = Inr True"
proof -
  have a: "sublist ''controller=attachment'' (strip u)"
    using assms(1) by (rule sublist_strip) (simp_all add: isspace_def)
  have b: "sublist ''id_attachment='' (strip u)"
    using assms(2) by (rule sublist_strip) (simp_all add: isspace_def)
  show ?thesis using a b by (simp add: is_pdf_link_def)
qed

theorem C6_attachment_rule_witness:
  "sublist ''controller=attachment'' ''index.php?controller=attachment&id_attachment=42''
   \<and> sublist ''id_attachment='' ''index.php?controller=attachment&id_attachment=42''
   \<and> is_pdf_link (urlparse refuse_brackets)
        (PStr ''index.php?controller=attachment&id_attachment=42'') = Inr True"
proof -
  have a: "sublist ''controller=attachment'' ''index.php?controller=attachment&id_attachment=42''"
    by code_simp
  have b: "sublist ''id_attachment='' ''index.php?controller=attachment&id_attachment=42''"
    by code_simp
  from C6_attachment_rule [OF a b] a b show ?thesis by simp
qed

text \<open>
  C9, as the claim states it, fails on a string: \<open>urlparse\<close> raises \<open>ValueError\<close>
  (invalid IPv6 URL) on \<open>//[\<close>, and \<open>_is_pdf_link\<close> has no handler, so the exception
  leaves it.
\<close>

theorem C9_unclosed_bracket_counterexample:
  "is_pdf_link (urlparse refuse_brackets) (PStr ''//['') = Inl ValueError"
  by code_simp

text \<open>
  C9 (amended). For every input that is not a string, \<open>_is_pdf_link\<close> returns false
  without raising. For a string it returns a boolean, with one exception: when the
  stripped string does not have the attachment pattern, starts with \<open>http\<close> or \<open>/\<close>, and
  \<open>urlparse\<close> raises on it, the exception of \<open>urlparse\<close> leaves the function.
\<close>

theorem C9_classifier_raises_with_parser_only:
  "(\<not> isinstance_str v \<longrightarrow> is_pdf_link up v = Inr False)
   \<and> (v = PStr s \<longrightarrow>
        (if \<not> (sublist ''controller=attachment'' (strip s) \<and> sublist ''id_attachment='' (strip s))
            \<and> (prefix ''http'' (strip s) \<or> prefix ''/'' (strip s))
            \<and> isl (up (strip s))
         then is_pdf_link up v = Inl (projl (up (strip s)))
         else is_pdf_link up v = Inr True \<or> is_pdf_link up v = Inr False))"
  by (cases v)
     (auto simp: is_pdf_link_def isinstance_str_def Let_def split: sum.splits)

theorem C9_classifier_raises_with_parser_only_witness:
  "is_pdf_link (urlparse refuse_brackets) PNone = Inr False
   \<and> is_pdf_link (urlparse refuse_brackets) (PList [PInt 3]) = Inr False
   \<and> is_pdf_link (urlparse refuse_brackets) (PStr ''http://['') = Inl ValueError
   \<and> (is_pdf_link (urlparse refuse_brackets) (PStr ''/a.pdf'') = Inr True
      \<or> is_pdf_link (urlparse refuse_brackets) (PStr ''/a.pdf'') = Inr False)
   \<and> (is_pdf_link (urlparse refuse_brackets) (PStr ''//[?controller=attachment&id_attachment=1'') = Inr True
      \<or> is_pdf_link (urlparse refuse_brackets) (PStr ''//[?controller=attachment&id_attachment=1'') = Inr False)"
proof -
  let ?up = "urlparse refuse_brackets"
  have a: "\<not> isinstance_str PNone" and b: "\<not> isinstance_str (PList [PInt 3])"
    by (simp_all add: isinstance_str_def)
  from C9_classifier_raises_with_parser_only [of PNone ?up] a
  have 1: "is_pdf_link ?up PNone = Inr False" by simp
  from C9_classifier_raises_with_parser_only [of "PList [PInt 3]" ?up] b
  have 2: "is_pdf_link ?up (PList [PInt 3]) = Inr False" by simp
  have c: "\<not> (sublist ''controller=attachment'' (strip ''http://['')
              \<and> sublist ''id_attachment='' (strip ''http://[''))
      \<and> (prefix ''http'' (strip ''http://['') \<or> prefix ''/'' (strip ''http://[''))
      \<and> isl (?up (strip ''http://[''))"
    by code_simp
  have d: "projl (?up (strip ''http://['')) = ValueError"
    by code_simp
  from C9_classifier_raises_with_parser_only [of "PStr ''http://[''" ?up "''http://[''"] c d
  have 3: "is_pdf_link ?up (PStr ''http://['') = Inl ValueError" by simp
  have e: "\<not> isl (?up (strip ''/a.pdf''))"
    by code_simp
  from C9_classifier_raises_with_parser_only [of "PStr ''/a.pdf''" ?up "''/a.pdf''"] e
  have 4: "is_pdf_link ?up (PStr ''/a.pdf'') = Inr True \<or> is_pdf_link ?up (PStr ''/a.pdf'') = Inr False"
    by simp
  have f: "sublist ''controller=attachment'' (strip ''//[?controller=attachment&id_attachment=1'')
      \<and> sublist ''id_attachment='' (strip ''//[?controller=attachment&id_attachment=1'')"
    by code_simp
  from C9_classifier_raises_with_parser_only [of "PStr ''//[?controller=attachment&id_attachment=1''" ?up
      "''//[?controller=attachment&id_attachment=1''"] f
  have 5: "is_pdf_link ?up (PStr ''//[?controller=attachment&id_attachment=1'') = Inr True
      \<or> is_pdf_link ?up (PStr ''//[?controller=attachment&id_attachment=1'') = Inr False"
    by simp
  from 1 2 3 4 5 show ?thesis by blast
qed

section \<open>Properties of the Signature Validator\<close>

lemma generate_filename_world:
  "generate_filename e w pdf_url title = (r, w1) \<Longrightarrow> \<exists>n. w1 = w\<lparr>clock_reads := n\<rparr>"
  by (auto simp: generate_filename_def read_clock_def Let_def split: if_splits sum.splits prod.splits
           intro: exI [of _ "clock_reads w"] exI [of _ "Suc (clock_reads w)"])

lemma generate_filename_title:
  "title \<noteq> [] \<Longrightarrow>
     \<exists>fname. generate_filename e w pdf_url title = (Inr fname, w\<lparr>clock_reads := Suc (clock_reads w)\<rparr>)"
  by (simp add: generate_filename_def read_clock_def Let_def)

lemma download_result:
  assumes gen: "generate_filename e w pdf_url title = (Inr fname, w1)"
    and resp: "http_get e (length (requested w)) pdf_url = Inr content"
  shows "fst (download_pdf_advanced e w pdf_url download_dir title)
         = (prefix ''%PDF'' content \<and> 1000 \<le> length content
            \<and> can_write e (path_join download_dir fname))"
proof -
  from generate_filename_world [OF gen] obtain n where w1: "w1 = w\<lparr>clock_reads := n\<rparr>" ..
  show ?thesis
    using gen resp by (simp add: download_pdf_advanced_def say_def w1 Let_def not_less split: option.splits)
qed

text \<open>
  C2. When a file name has been generated and the GET request has returned the bytes
  \<open>content\<close>, \<open>_download_pdf_advanced\<close> rejects them if they do not start with
  \<open>%PDF\<close>, rejects them if they start with \<open>%PDF\<close> and are shorter than 1000 bytes, and
  otherwise accepts them; the last needs the file to be writable, since the size is
  read from the file written. So, the write apart, the bytes are accepted if and only if
  they start with \<open>%PDF\<close> and are at least 1000 bytes long.
\<close>

theorem C2_signature_validator:
  assumes "generate_filename e w pdf_url title = (Inr fname, w1)"
    and "http_get e (length (requested w)) pdf_url = Inr content"
  shows "(can_write e (path_join download_dir fname) \<longrightarrow>
            fst (download_pdf_advanced e w pdf_url download_dir title)
            = (prefix ''%PDF'' content \<and> 1000 \<le> length content))
         \<and> (\<not> prefix ''%PDF'' content \<longrightarrow>
              \<not> fst (download_pdf_advanced e w pdf_url download_dir title))
         \<and> (prefix ''%PDF'' content \<and> length content < 1000 \<longrightarrow>
              \<not> fst (download_pdf_advanced e w pdf_url download_dir title))"
  using download_result [OF assms] by auto

theorem C2_signature_validator_witness:
  "fst (download_pdf_advanced example_env new_harvester ''https://x.test/a.pdf'' ''dl'' ''Report'')
   \<and> \<not> fst (download_pdf_advanced example_env new_harvester ''https://x.test/small.pdf'' ''dl'' ''Report'')
   \<and> \<not> fst (download_pdf_advanced example_env new_harvester ''https://x.test/page.pdf'' ''dl'' ''Report'')"
proof -
  have req: "requested new_harvester = []"
    by (simp add: new_harvester_def)
  have wr: "\<And>p. can_write example_env p"
    by (simp add: example_env_def)
  have a: "http_get example_env (length (requested new_harvester)) ''https://x.test/a.pdf''
           = Inr (''%PDF'' @ replicate 996 CHR ''x'')"
    by (simp add: example_env_def)
  have b: "http_get example_env (length (requested new_harvester)) ''https://x.test/small.pdf''
           = Inr ''%PDF-1.4''"
    by (simp add: example_env_def)
  have c: "http_get example_env (length (requested new_harvester)) ''https://x.test/page.pdf''
           = Inr ''<html></html>''"
    by (simp add: example_env_def)
  obtain f1 where g1: "generate_filename example_env new_harvester ''https://x.test/a.pdf'' ''Report''
      = (Inr f1, new_harvester\<lparr>clock_reads := Suc (clock_reads new_harvester)\<rparr>)"
    using generate_filename_title [of "''Report''"] by fastforce
  obtain f2 where g2: "generate_filename example_env new_harvester ''https://x.test/small.pdf'' ''Report''
      = (Inr f2, new_harvester\<lparr>clock_reads := Suc (clock_reads new_harvester)\<rparr>)"
    using generate_filename_title [of "''Report''"] by fastforce
  obtain f3 where g3: "generate_filename example_env new_harvester ''https://x.test/page.pdf'' ''Report''
      = (Inr f3, new_harvester\<lparr>clock_reads := Suc (clock_reads new_harvester)\<rparr>)"
    using generate_filename_title [of "''Report''"] by fastforce
  from C2_signature_validator [OF g1 a, of "''dl''"] wr
  have 1: "fst (download_pdf_advanced example_env new_harvester ''https://x.test/a.pdf'' ''dl'' ''Report'')"
    by simp
  from C2_signature_validator [OF g2 b, of "''dl''"]
  have 2: "\<not> fst (download_pdf_advanced example_env new_harvester ''https://x.test/small.pdf'' ''dl'' ''Report'')"
    by simp
  from C2_signature_validator [OF g3 c, of "''dl''"]
  have 3: "\<not> fst (download_pdf_advanced example_env new_harvester ''https://x.test/page.pdf'' ''dl'' ''Report'')"
    by simp
  from 1 2 3 show ?thesis by simp
qed

section \<open>Properties of the Persistence Store\<close>

lemma insert_or_replace_unique:
  "distinct (map url (harvested_pdfs d)) \<Longrightarrow>
   distinct (map url (harvested_pdfs (insert_or_replace d r)))"
  by (auto simp: insert_or_replace_def Let_def distinct_map_filter)

lemma log_to_database_unique:
  "distinct (map url (harvested_pdfs (db w))) \<Longrightarrow>
   distinct (map url (harvested_pdfs (db (log_to_database e w pdf_url title page_url st))))"
  by (simp add: log_to_database_def read_clock_def say_def insert_or_replace_unique)

lemma log_all_unique:
  "distinct (map url (harvested_pdfs (db w))) \<Longrightarrow>
   distinct (map url (harvested_pdfs (db (log_all e w calls))))"
  by (induction e w calls rule: log_all.induct) (simp_all add: log_to_database_unique)

lemma log_to_database_rows:
  "db_writable e \<Longrightarrow>
   \<exists>n. filter (\<lambda>r. url r = pdf_url)
         (harvested_pdfs (db (log_to_database e w pdf_url title page_url st)))
       = [\<lparr>row_id = n, url = pdf_url, filename = title, file_size = 0,
           file_hash = md5_hexdigest e pdf_url, source_feed = ''streamlit_app'',
           harvest_date = clock e (clock_reads w), status = st, article_title = title,
           article_url = page_url\<rparr>]"
  by (simp add: log_to_database_def read_clock_def insert_or_replace_def Let_def)

lemma log_to_database_clock_reads:
  "clock_reads (log_to_database e w pdf_url title page_url st) = Suc (clock_reads w)"
  by (simp add: log_to_database_def read_clock_def say_def)

text \<open>
  C3. After any sequence of writes to the store, starting from the table
  \<open>init_database\<close> creates or from any table with at most one row per \<open>url\<close>, no two
  rows have the same \<open>url\<close>. After two successive writes for the same \<open>url\<close> (with a
  database that accepts writes) the table has exactly one row for that \<open>url\<close>, and each
  of its columns has the value the second write gave it; its \<open>id\<close> is the one the
  database chose.
\<close>

theorem C3_one_record_per_url:
  "distinct (map url (harvested_pdfs (db (log_all e (w\<lparr>db := init_database None\<rparr>) calls))))
   \<and> (distinct (map url (harvested_pdfs (db w)))
        \<longrightarrow> distinct (map url (harvested_pdfs (db (log_all e w calls)))))
   \<and> (db_writable e \<longrightarrow>
        (\<exists>n. filter (\<lambda>r. url r = u)
               (harvested_pdfs (db (log_to_database e (log_to_database e w u t1 a1 s1) u t2 a2 s2)))
             = [\<lparr>row_id = n, url = u, filename = t2, file_size = 0,
                 file_hash = md5_hexdigest e u, source_feed = ''streamlit_app'',
                 harvest_date = clock e (Suc (clock_reads w)), status = s2,
                 article_title = t2, article_url = a2\<rparr>]))"
proof (intro conjI impI)
  show "distinct (map url (harvested_pdfs (db (log_all e (w\<lparr>db := init_database None\<rparr>) calls))))"
    by (rule log_all_unique) (simp add: init_database_def)
next
  assume "distinct (map url (harvested_pdfs (db w)))"
  then show "distinct (map url (harvested_pdfs (db (log_all e w calls))))"
    by (rule log_all_unique)
next
  assume "db_writable e"
  from log_to_database_rows [OF this, of u "log_to_database e w u t1 a1 s1" t2 a2 s2]
  show "\<exists>n. filter (\<lambda>r. url r = u)
               (harvested_pdfs (db (log_to_database e (log_to_database e w u t1 a1 s1) u t2 a2 s2)))
             = [\<lparr>row_id = n, url = u, filename = t2, file_size = 0,
                 file_hash = md5_hexdigest e u, source_feed = ''streamlit_app'',
                 harvest_date = clock e (Suc (clock_reads w)), status = s2,
                 article_title = t2, article_url = a2\<rparr>]"
    by (simp add: log_to_database_clock_reads)
qed

theorem C3_one_record_per_url_witness:
  "distinct (map url (harvested_pdfs (db (log_all example_env new_harvester
      [(''https://x.test/a.pdf'', ''Report'', ''https://x.test/article'', ''failed''),
       (''https://x.test/b.pdf'', ''Report'', ''https://x.test/article'', ''failed''),
       (''https://x.test/a.pdf'', ''Report 2'', ''https://x.test/other'', ''success'')]))))
   \<and> map status (filter (\<lambda>r. url r = ''https://x.test/a.pdf'')
        (harvested_pdfs (db (log_to_database example_env
           (log_to_database example_env new_harvester
              ''https://x.test/a.pdf'' ''Report'' ''https://x.test/article'' ''failed'')
           ''https://x.test/a.pdf'' ''Report 2'' ''https://x.test/other'' ''success''))))
     = [''success'']"
proof -
  let ?calls = "[(''https://x.test/a.pdf'', ''Report'', ''https://x.test/article'', ''failed''),
       (''https://x.test/b.pdf'', ''Report'', ''https://x.test/article'', ''failed''),
       (''https://x.test/a.pdf'', ''Report 2'', ''https://x.test/other'', ''success'')]"
  have a: "distinct (map url (harvested_pdfs (db new_harvester)))"
    by (simp add: new_harvester_def init_database_def)
  have b: "db_writable example_env"
    by (simp add: example_env_def)
  note T = C3_one_record_per_url [where e = example_env and w = new_harvester
      and calls = ?calls and u = "''https://x.test/a.pdf''" and ?t1.0 = "''Report''"
      and ?a1.0 = "''https://x.test/article''" and ?s1.0 = "''failed''" and ?t2.0 = "''Report 2''"
      and ?a2.0 = "''https://x.test/other''" and ?s2.0 = "''success''"]
  from T a have 1: "distinct (map url (harvested_pdfs (db (log_all example_env new_harvester ?calls))))"
    by blast
  from T b obtain n where 2: "filter (\<lambda>r. url r = ''https://x.test/a.pdf'')
        (harvested_pdfs (db (log_to_database example_env
           (log_to_database example_env new_harvester
              ''https://x.test/a.pdf'' ''Report'' ''https://x.test/article'' ''failed'')
           ''https://x.test/a.pdf'' ''Report 2'' ''https://x.test/other'' ''success'')))
      = [\<lparr>row_id = n, url = ''https://x.test/a.pdf'', filename = ''Report 2'', file_size = 0,
          file_hash = md5_hexdigest example_env ''https://x.test/a.pdf'',
          source_feed = ''streamlit_app'',
          harvest_date = clock example_env (Suc (clock_reads new_harvester)),
          status = ''success'', article_title = ''Report 2'',
          article_url = ''https://x.test/other''\<rparr>]"
    by blast
  from 2 have 3: "map status (filter (\<lambda>r. url r = ''https://x.test/a.pdf'')
        (harvested_pdfs (db (log_to_database example_env
           (log_to_database example_env new_harvester
              ''https://x.test/a.pdf'' ''Report'' ''https://x.test/article'' ''failed'')
           ''https://x.test/a.pdf'' ''Report 2'' ''https://x.test/other'' ''success''))))
     = [''success'']"
    by simp
  from 1 3 show ?thesis by simp
qed

section \<open>Properties of the Harvest Orchestrator\<close>

lemma generate_filename_named:
  "generate_filename e w pdf_url title = (r, w1) \<Longrightarrow>
   isl r = (title = [] \<and> isl (url_parser e pdf_url))"
  by (cases "url_parser e pdf_url")
     (auto simp: generate_filename_def read_clock_def Let_def split: if_splits)

lemma download_requested:
  "requested (snd (download_pdf_advanced e w pdf_url download_dir title))
   = requested w @ (if title = [] \<and> isl (url_parser e pdf_url) then [] else [pdf_url])"
proof -
  obtain r w1 where g: "generate_filename e w pdf_url title = (r, w1)"
    by (cases "generate_filename e w pdf_url title")
  from generate_filename_world [OF g] obtain n where w1: "w1 = w\<lparr>clock_reads := n\<rparr>" ..
  from generate_filename_named [OF g] have named: "isl r = (title = [] \<and> isl (url_parser e pdf_url))" .
  show ?thesis
  proof (cases r)
    case (Inl err)
    with g w1 named show ?thesis
      by (simp add: download_pdf_advanced_def say_def)
  next
    case (Inr fname)
    with named have "\<not> (title = [] \<and> isl (url_parser e pdf_url))" by simp
    with g w1 Inr show ?thesis
      by (simp add: download_pdf_advanced_def say_def Let_def split: sum.splits option.splits)
  qed
qed

lemma download_keeps_sets:
  "downloaded_urls (snd (download_pdf_advanced e w pdf_url download_dir title)) = downloaded_urls w"
  "failed_urls (snd (download_pdf_advanced e w pdf_url download_dir title)) = failed_urls w"
  "db (snd (download_pdf_advanced e w pdf_url download_dir title)) = db w"
proof -
  obtain r w1 where g: "generate_filename e w pdf_url title = (r, w1)"
    by (cases "generate_filename e w pdf_url title")
  from generate_filename_world [OF g] obtain n where w1: "w1 = w\<lparr>clock_reads := n\<rparr>" ..
  show "downloaded_urls (snd (download_pdf_advanced e w pdf_url download_dir title)) = downloaded_urls w"
    using g w1 by (cases r) (simp_all add: download_pdf_advanced_def say_def Let_def split: sum.splits option.splits)
  show "failed_urls (snd (download_pdf_advanced e w pdf_url download_dir title)) = failed_urls w"
    using g w1 by (cases r) (simp_all add: download_pdf_advanced_def say_def Let_def split: sum.splits option.splits)
  show "db (snd (download_pdf_advanced e w pdf_url download_dir title)) = db w"
    using g w1 by (cases r) (simp_all add: download_pdf_advanced_def say_def Let_def split: sum.splits option.splits)
qed

lemma log_to_database_keeps:
  "requested (log_to_database e w pdf_url title page_url st) = requested w"
  "downloaded_urls (log_to_database e w pdf_url title page_url st) = downloaded_urls w"
  "failed_urls (log_to_database e w pdf_url title page_url st) = failed_urls w"
  "files (log_to_database e w pdf_url title page_url st) = files w"
  by (simp_all add: log_to_database_def read_clock_def say_def)

lemma scan_candidate_skip:
  "pdf_url \<in> downloaded_urls w \<Longrightarrow>
   scan_candidate e page_url download_dir title pdf_url (downloaded, w) = (downloaded, w)"
  by (simp add: scan_candidate_def)

lemma scan_candidate_try:
  "pdf_url \<notin> downloaded_urls w \<Longrightarrow>
   download_pdf_advanced e w pdf_url download_dir title = (ok, w1) \<Longrightarrow>
   scan_candidate e page_url download_dir title pdf_url (downloaded, w)
   = (if ok
      then (downloaded @ [pdf_url],
            log_to_database e (w1\<lparr>downloaded_urls := insert pdf_url (downloaded_urls w1)\<rparr>)
              pdf_url title page_url ''success'')
      else (downloaded,
            log_to_database e (w1\<lparr>failed_urls := insert pdf_url (failed_urls w1)\<rparr>)
              pdf_url title page_url ''failed''))"
  by (cases ok) (simp_all add: scan_candidate_def)

lemma scan_candidate_requested:
  "requested (snd (scan_candidate e page_url download_dir title pdf_url (downloaded, w)))
   = requested w @ (if pdf_url \<notin> downloaded_urls w \<and> \<not> (title = [] \<and> isl (url_parser e pdf_url))
                    then [pdf_url] else [])"
proof (cases "pdf_url \<in> downloaded_urls w")
  case True
  then show ?thesis by (simp add: scan_candidate_skip)
next
  case False
  obtain ok w1 where d: "download_pdf_advanced e w pdf_url download_dir title = (ok, w1)"
    by (cases "download_pdf_advanced e w pdf_url download_dir title")
  from download_requested [of e w pdf_url download_dir title] d
  have "requested w1 = requested w @ (if title = [] \<and> isl (url_parser e pdf_url) then [] else [pdf_url])"
    by simp
  with False show ?thesis
    by (simp add: scan_candidate_try [OF False d] log_to_database_keeps)
qed

lemma scan_candidate_downloaded_urls:
  "downloaded_urls (snd (scan_candidate e page_url download_dir title pdf_url (downloaded, w)))
     = downloaded_urls w
   \<or> downloaded_urls (snd (scan_candidate e page_url download_dir title pdf_url (downloaded, w)))
     = insert pdf_url (downloaded_urls w)"
proof (cases "pdf_url \<in> downloaded_urls w")
  case True
  then show ?thesis by (simp add: scan_candidate_skip)
next
  case False
  obtain ok w1 where d: "download_pdf_advanced e w pdf_url download_dir title = (ok, w1)"
    by (cases "download_pdf_advanced e w pdf_url download_dir title")
  from download_keeps_sets(1) [of e w pdf_url download_dir title] d
  have "downloaded_urls w1 = downloaded_urls w" by simp
  then show ?thesis
    by (simp add: scan_candidate_try [OF False d] log_to_database_keeps)
qed

lemma scan_loop_requested:
  "distinct pdf_urls \<Longrightarrow>
   requested (snd (scan_loop e page_url download_dir title pdf_urls (downloaded, w)))
   = requested w @ filter (\<lambda>u. u \<notin> downloaded_urls w \<and> \<not> (title = [] \<and> isl (url_parser e u)))
                     pdf_urls"
proof (induction pdf_urls arbitrary: downloaded w)
  case Nil
  then show ?case by simp
next
  case (Cons u us)
  obtain d1 w1 where step: "scan_candidate e page_url download_dir title u (downloaded, w) = (d1, w1)"
    by (cases "scan_candidate e page_url download_dir title u (downloaded, w)")
  from scan_candidate_downloaded_urls [of e page_url download_dir title u downloaded w] step
  have D: "downloaded_urls w1 = downloaded_urls w \<or> downloaded_urls w1 = insert u (downloaded_urls w)"
    by simp
  from Cons.prems have "u \<notin> set us" and "distinct us" by simp_all
  with D have same: "filter (\<lambda>x. x \<notin> downloaded_urls w1 \<and> \<not> (title = [] \<and> isl (url_parser e x))) us
      = filter (\<lambda>x. x \<notin> downloaded_urls w \<and> \<not> (title = [] \<and> isl (url_parser e x))) us"
    by (intro filter_cong) auto
  from scan_candidate_requested [of e page_url download_dir title u downloaded w] step
  have R: "requested w1 = requested w @ (if u \<notin> downloaded_urls w \<and> \<not> (title = [] \<and> isl (url_parser e u))
                    then [u] else [])"
    by simp
  from Cons.IH [OF \<open>distinct us\<close>, of d1 w1] step same R
  show ?case by simp
qed

lemma scan_requested:
  "page_candidates e page_url = Inr pdf_urls \<Longrightarrow> distinct pdf_urls \<Longrightarrow>
   requested (snd (scan_url_for_pdfs e w page_url download_dir title))
   = requested w @ (if can_makedirs e download_dir
       then filter (\<lambda>u. u \<notin> downloaded_urls w \<and> \<not> (title = [] \<and> isl (url_parser e u))) pdf_urls
       else [])"
  by (simp add: scan_url_for_pdfs_def scan_loop_requested say_def)

text \<open>
  C4, as the claim states it, fails for \<open>failed_urls\<close>: the loop tests
  \<open>pdf_url not in self.downloaded_urls\<close> only. With \<open>small.pdf\<close> in \<open>failed_urls\<close> the
  scan of a page that links to it sends the GET request for it again.
\<close>

theorem C4_retry_of_failed_counterexample:
  "''https://x.test/small.pdf'' \<in> failed_urls (new_harvester\<lparr>failed_urls := {''https://x.test/small.pdf''}\<rparr>)
   \<and> requested (snd (scan_url_for_pdfs example_env
         (new_harvester\<lparr>failed_urls := {''https://x.test/small.pdf''}\<rparr>)
         ''https://x.test/article'' ''dl'' ''Report''))
     = [''https://x.test/a.pdf'', ''https://x.test/small.pdf'', ''https://x.test/page.pdf'']"
proof -
  have c: "page_candidates example_env ''https://x.test/article''
      = Inr [''https://x.test/a.pdf'', ''https://x.test/small.pdf'', ''https://x.test/page.pdf'']"
    by (simp add: example_env_def)
  have d: "distinct [''https://x.test/a.pdf'', ''https://x.test/small.pdf'', ''https://x.test/page.pdf'']"
    by simp
  have m: "can_makedirs example_env ''dl''"
    by (simp add: example_env_def)
  from scan_requested [OF c d, of "new_harvester\<lparr>failed_urls := {''https://x.test/small.pdf''}\<rparr>"
      "''dl''" "''Report''"] m
  show ?thesis by (simp add: new_harvester_def)
qed

text \<open>
  C4 (amended). A scan whose page fetch and directory creation succeed sends a GET
  request for exactly the candidates that are not in \<open>downloaded_urls\<close> when it starts,
  once each and in the order of the loop; \<open>failed_urls\<close> has no part in it. (With an
  empty title a candidate that \<open>urlparse\<close> refuses gets no file name and no request.)
  So no download is attempted for a candidate in \<open>downloaded_urls\<close>, and the
  download-and-validate step runs for every other candidate, also one in \<open>failed_urls\<close>.
\<close>

theorem C4_dedup_by_downloaded_urls:
  assumes "page_candidates e page_url = Inr pdf_urls" and "distinct pdf_urls"
    and "can_makedirs e download_dir"
  shows "requested (snd (scan_url_for_pdfs e w page_url download_dir title))
         = requested w
           @ filter (\<lambda>u. u \<notin> downloaded_urls w \<and> \<not> (title = [] \<and> isl (url_parser e u))) pdf_urls"
  using scan_requested [OF assms(1,2), of w download_dir title] assms(3) by simp

theorem C4_dedup_by_downloaded_urls_witness:
  "requested (snd (scan_url_for_pdfs example_env
      (new_harvester\<lparr>downloaded_urls := {''https://x.test/a.pdf''}\<rparr>)
      ''https://x.test/article'' ''dl'' ''Report''))
   = [''https://x.test/small.pdf'', ''https://x.test/page.pdf'']"
proof -
  have c: "page_candidates example_env ''https://x.test/article''
      = Inr [''https://x.test/a.pdf'', ''https://x.test/small.pdf'', ''https://x.test/page.pdf'']"
    by (simp add: example_env_def)
  have d: "distinct [''https://x.test/a.pdf'', ''https://x.test/small.pdf'', ''https://x.test/page.pdf'']"
    by simp
  have m: "can_makedirs example_env ''dl''"
    by (simp add: example_env_def)
  from C4_dedup_by_downloaded_urls [OF c d m,
      of "new_harvester\<lparr>downloaded_urls := {''https://x.test/a.pdf''}\<rparr>" "''Report''"]
  show ?thesis by (simp add: new_harvester_def)
qed

lemma download_rejected:
  assumes gen: "generate_filename e w pdf_url title = (Inr fname, w1)"
    and resp: "http_get e (length (requested w)) pdf_url = Inr content"
    and rej: "\<not> prefix ''%PDF'' content
              \<or> (can_write e (path_join download_dir fname) \<and> length content < 1000)"
  shows "fst (download_pdf_advanced e w pdf_url download_dir title) = False"
    and "shown (snd (download_pdf_advanced e w pdf_url download_dir title))
         = shown w @ [Info_download pdf_url,
                      if \<not> prefix ''%PDF'' content then Warning_non_pdf pdf_url
                      else if can_remove e (path_join download_dir fname)
                      then Warning_too_small fname
                      else Error_download pdf_url OSError]"
    and "files (snd (download_pdf_advanced e w pdf_url download_dir title))
         = (if \<not> prefix ''%PDF'' content then files w
            else if can_remove e (path_join download_dir fname)
            then (files w)(path_join download_dir fname := None)
            else (files w)(path_join download_dir fname \<mapsto> content))"
proof -
  from generate_filename_world [OF gen] obtain n where w1: "w1 = w\<lparr>clock_reads := n\<rparr>" ..
  show "fst (download_pdf_advanced e w pdf_url download_dir title) = False"
    using gen resp rej by (auto simp: download_pdf_advanced_def say_def w1 Let_def)
  show "shown (snd (download_pdf_advanced e w pdf_url download_dir title))
         = shown w @ [Info_download pdf_url,
                      if \<not> prefix ''%PDF'' content then Warning_non_pdf pdf_url
                      else if can_remove e (path_join download_dir fname)
                      then Warning_too_small fname
                      else Error_download pdf_url OSError]"
    using gen resp rej by (auto simp: download_pdf_advanced_def say_def w1 Let_def)
  show "files (snd (download_pdf_advanced e w pdf_url download_dir title))
         = (if \<not> prefix ''%PDF'' content then files w
            else if can_remove e (path_join download_dir fname)
            then (files w)(path_join download_dir fname := None)
            else (files w)(path_join download_dir fname \<mapsto> content))"
    using gen resp rej by (auto simp: download_pdf_advanced_def say_def w1 Let_def)
qed

lemma download_accepted:
  assumes gen: "generate_filename e w pdf_url title = (Inr fname, w1)"
    and resp: "http_get e (length (requested w)) pdf_url = Inr content"
    and ok: "prefix ''%PDF'' content" "1000 \<le> length content"
      "can_write e (path_join download_dir fname)"
  shows "fst (download_pdf_advanced e w pdf_url download_dir title) = True"
    and "shown (snd (download_pdf_advanced e w pdf_url download_dir title))
         = shown w @ [Info_download pdf_url, Success_saved fname (length content)]"
    and "files (snd (download_pdf_advanced e w pdf_url download_dir title))
         = (files w)(path_join download_dir fname \<mapsto> content)"
proof -
  from generate_filename_world [OF gen] obtain n where w1: "w1 = w\<lparr>clock_reads := n\<rparr>" ..
  show "fst (download_pdf_advanced e w pdf_url download_dir title) = True"
    using gen resp ok by (simp add: download_pdf_advanced_def say_def w1 Let_def split: option.splits)
  show "shown (snd (download_pdf_advanced e w pdf_url download_dir title))
         = shown w @ [Info_download pdf_url, Success_saved fname (length content)]"
    using gen resp ok by (simp add: download_pdf_advanced_def say_def w1 Let_def split: option.splits)
  show "files (snd (download_pdf_advanced e w pdf_url download_dir title))
         = (files w)(path_join download_dir fname \<mapsto> content)"
    using gen resp ok by (simp add: download_pdf_advanced_def say_def w1 Let_def split: option.splits)
qed

lemma log_to_database_shown:
  "db_writable e \<Longrightarrow> shown (log_to_database e w pdf_url title page_url st) = shown w"
  by (simp add: log_to_database_def read_clock_def)

lemma log_to_database_other_rows:
  "u \<noteq> pdf_url \<Longrightarrow>
   filter (\<lambda>r. url r = u) (harvested_pdfs (db (log_to_database e w pdf_url title page_url st)))
   = filter (\<lambda>r. url r = u) (harvested_pdfs (db w))"
proof -
  assume ne: "u \<noteq> pdf_url"
  then have "filter (\<lambda>r. url r = u) (filter (\<lambda>x. url x \<noteq> pdf_url) (harvested_pdfs (db w)))
     = filter (\<lambda>r. url r = u) (harvested_pdfs (db w))"
    by (auto intro: filter_cong)
  with ne show ?thesis
    by (auto simp: log_to_database_def read_clock_def say_def insert_or_replace_def Let_def)
qed

lemma scan_candidate_other_rows:
  assumes "u \<noteq> pdf_url"
  shows "filter (\<lambda>r. url r = u)
           (harvested_pdfs (db (snd (scan_candidate e page_url download_dir title pdf_url acc))))
         = filter (\<lambda>r. url r = u) (harvested_pdfs (db (snd acc)))"
proof (cases acc)
  case (Pair downloaded w)
  show ?thesis
  proof (cases "pdf_url \<in> downloaded_urls w")
    case True
    with Pair show ?thesis by (simp add: scan_candidate_skip)
  next
    case False
    obtain ok w1 where d: "download_pdf_advanced e w pdf_url download_dir title = (ok, w1)"
      by (cases "download_pdf_advanced e w pdf_url download_dir title")
    from download_keeps_sets(3) [of e w pdf_url download_dir title] d
    have "db w1 = db w" by simp
    with Pair assms show ?thesis
      by (simp add: scan_candidate_try [OF False d] log_to_database_other_rows)
  qed
qed

lemma scan_candidate_failed_urls:
  "failed_urls (snd acc)
   \<subseteq> failed_urls (snd (scan_candidate e page_url download_dir title pdf_url acc))"
proof (cases acc)
  case (Pair downloaded w)
  show ?thesis
  proof (cases "pdf_url \<in> downloaded_urls w")
    case True
    with Pair show ?thesis by (simp add: scan_candidate_skip)
  next
    case False
    obtain ok w1 where d: "download_pdf_advanced e w pdf_url download_dir title = (ok, w1)"
      by (cases "download_pdf_advanced e w pdf_url download_dir title")
    from download_keeps_sets(2) [of e w pdf_url download_dir title] d
    have "failed_urls w1 = failed_urls w" by simp
    with Pair show ?thesis
      by (auto simp: scan_candidate_try [OF False d] log_to_database_keeps)
  qed
qed

lemma scan_loop_other_rows:
  "u \<notin> set pdf_urls \<Longrightarrow>
   filter (\<lambda>r. url r = u)
     (harvested_pdfs (db (snd (scan_loop e page_url download_dir title pdf_urls acc))))
   = filter (\<lambda>r. url r = u) (harvested_pdfs (db (snd acc)))"
  by (induction pdf_urls arbitrary: acc) (simp_all add: scan_candidate_other_rows)

lemma scan_loop_failed_urls:
  "failed_urls (snd acc)
   \<subseteq> failed_urls (snd (scan_loop e page_url download_dir title pdf_urls acc))"
proof (induction pdf_urls arbitrary: acc)
  case Nil
  then show ?case by simp
next
  case (Cons x xs)
  from scan_candidate_failed_urls [of acc e page_url download_dir title x]
       Cons.IH [of "scan_candidate e page_url download_dir title x acc"]
  show ?case by auto
qed

lemma scan_loop_downloaded_urls:
  "downloaded_urls (snd (scan_loop e page_url download_dir title pdf_urls acc))
   \<subseteq> downloaded_urls (snd acc) \<union> set pdf_urls"
proof (induction pdf_urls arbitrary: acc)
  case Nil
  then show ?case by simp
next
  case (Cons x xs)
  obtain downloaded w where acc: "acc = (downloaded, w)" by (cases acc)
  from scan_candidate_downloaded_urls [of e page_url download_dir title x downloaded w] acc
       Cons.IH [of "scan_candidate e page_url download_dir title x acc"]
  show ?case by auto
qed

lemma scan_loop_append:
  "scan_loop e page_url download_dir title (xs @ ys) acc
   = scan_loop e page_url download_dir title ys (scan_loop e page_url download_dir title xs acc)"
  by (induction xs arbitrary: acc) simp_all

lemma download_clock_reads:
  assumes gen: "generate_filename e w pdf_url title = (Inr fname, w1)"
  shows "clock_reads (snd (download_pdf_advanced e w pdf_url download_dir title)) = clock_reads w1"
  using gen
  by (simp add: download_pdf_advanced_def say_def Let_def split: sum.splits option.splits)

lemma log_to_database_db:
  "db_writable e \<Longrightarrow>
   db (log_to_database e w pdf_url title page_url st)
   = insert_or_replace (db w)
       \<lparr>row_id = 0, url = pdf_url, filename = title, file_size = 0,
        file_hash = md5_hexdigest e pdf_url, source_feed = ''streamlit_app'',
        harvest_date = clock e (clock_reads w), status = st, article_title = title,
        article_url = page_url\<rparr>"
  by (simp add: log_to_database_def read_clock_def)

lemma scan_candidate_rejected:
  assumes new: "u \<notin> downloaded_urls w"
    and gen: "generate_filename e w u title = (Inr fname, w1)"
    and resp: "http_get e (length (requested w)) u = Inr content"
    and rej: "\<not> prefix ''%PDF'' content
              \<or> (can_write e (path_join download_dir fname) \<and> length content < 1000)"
    and dbw: "db_writable e"
  shows "db (snd (scan_candidate e page_url download_dir title u (downloaded, w)))
         = insert_or_replace (db w)
             \<lparr>row_id = 0, url = u, filename = title, file_size = 0,
              file_hash = md5_hexdigest e u, source_feed = ''streamlit_app'',
              harvest_date = clock e (clock_reads w1), status = ''failed'',
              article_title = title, article_url = page_url\<rparr>"
    and "files (snd (scan_candidate e page_url download_dir title u (downloaded, w)))
         = (if \<not> prefix ''%PDF'' content then files w
            else if can_remove e (path_join download_dir fname)
            then (files w)(path_join download_dir fname := None)
            else (files w)(path_join download_dir fname \<mapsto> content))"
    and "shown (snd (scan_candidate e page_url download_dir title u (downloaded, w)))
         = shown w @ [Info_download u,
                      if \<not> prefix ''%PDF'' content then Warning_non_pdf u
                      else if can_remove e (path_join download_dir fname)
                      then Warning_too_small fname
                      else Error_download u OSError]"
    and "failed_urls (snd (scan_candidate e page_url download_dir title u (downloaded, w)))
         = insert u (failed_urls w)"
proof -
  obtain ok wd where d: "download_pdf_advanced e w u download_dir title = (ok, wd)"
    by (cases "download_pdf_advanced e w u download_dir title")
  note R = download_rejected [OF gen resp rej]
  from R(1) d have ok: "ok = False" by simp
  from download_clock_reads [OF gen, of download_dir] d have cr: "clock_reads wd = clock_reads w1"
    by simp
  from download_keeps_sets [of e w u download_dir title] d
  have keep: "db wd = db w" "failed_urls wd = failed_urls w" by simp_all
  have st: "scan_candidate e page_url download_dir title u (downloaded, w)
      = (downloaded, log_to_database e (wd\<lparr>failed_urls := insert u (failed_urls wd)\<rparr>) u title
                       page_url ''failed'')"
    using scan_candidate_try [OF new d, of page_url downloaded] ok by simp
  show "db (snd (scan_candidate e page_url download_dir title u (downloaded, w)))
         = insert_or_replace (db w)
             \<lparr>row_id = 0, url = u, filename = title, file_size = 0,
              file_hash = md5_hexdigest e u, source_feed = ''streamlit_app'',
              harvest_date = clock e (clock_reads w1), status = ''failed'',
              article_title = title, article_url = page_url\<rparr>"
    by (simp add: st log_to_database_db [OF dbw] keep cr)
  show "files (snd (scan_candidate e page_url download_dir title u (downloaded, w)))
         = (if \<not> prefix ''%PDF'' content then files w
            else if can_remove e (path_join download_dir fname)
            then (files w)(path_join download_dir fname := None)
            else (files w)(path_join download_dir fname \<mapsto> content))"
    using R(3) d by (simp add: st log_to_database_keeps)
  show "shown (snd (scan_candidate e page_url download_dir title u (downloaded, w)))
         = shown w @ [Info_download u,
                      if \<not> prefix ''%PDF'' content then Warning_non_pdf u
                      else if can_remove e (path_join download_dir fname)
                      then Warning_too_small fname
                      else Error_download u OSError]"
    using R(2) d by (simp add: st log_to_database_shown [OF dbw])
  show "failed_urls (snd (scan_candidate e page_url download_dir title u (downloaded, w)))
         = insert u (failed_urls w)"
    by (simp add: st log_to_database_keeps keep)
qed

lemma generate_filename_report:
  assumes "clock e (clock_reads w) div 1000000 = 1700000000"
  shows "generate_filename e w u ''Report''
         = (Inr ''Report_1700000000.pdf'', w\<lparr>clock_reads := Suc (clock_reads w)\<rparr>)"
proof -
  have a: "strip (filter safe_title_char ''Report'') = ''Report''"
    by code_simp
  have b: "str_int 1700000000 = ''1700000000''"
    by code_simp
  show ?thesis
    unfolding generate_filename_def read_clock_def Let_def prod.case a assms b by simp
qed

text \<open>The scan of the page \<open>stub\<close> by a new harvester, in an environment that differs from
  the example in the server's answers and in \<open>os.remove\<close> only, when the answer for
  \<open>small.pdf\<close> is rejected.\<close>

lemma scan_stub:
  assumes env: "e = example_env\<lparr>http_get := g, can_remove := rm\<rparr>"
    and resp: "g 0 ''https://x.test/small.pdf'' = Inr content"
    and rej: "\<not> prefix ''%PDF'' content \<or> length content < 1000"
  shows "harvested_pdfs (db (snd (scan_url_for_pdfs e new_harvester ''https://x.test/stub'' ''dl'' ''Report'')))
         = [\<lparr>row_id = 1, url = ''https://x.test/small.pdf'', filename = ''Report'', file_size = 0,
             file_hash = ''fbd0d402ba8a0f67f42c4356b720258c'', source_feed = ''streamlit_app'',
             harvest_date = 1700000000000001, status = ''failed'', article_title = ''Report'',
             article_url = ''https://x.test/stub''\<rparr>]"
    and "files (snd (scan_url_for_pdfs e new_harvester ''https://x.test/stub'' ''dl'' ''Report''))
         = (if \<not> prefix ''%PDF'' content then Map.empty
            else if rm ''dl/Report_1700000000.pdf'' then Map.empty
            else [''dl/Report_1700000000.pdf'' \<mapsto> content])"
proof -
  let ?u = "''https://x.test/small.pdf''"
  have clk: "clock e (clock_reads new_harvester) div 1000000 = 1700000000"
    by (simp add: env example_env_def new_harvester_def)
  note gen = generate_filename_report [OF clk, of ?u]
  have new: "?u \<notin> downloaded_urls new_harvester"
    by (simp add: new_harvester_def)
  have resp': "http_get e (length (requested new_harvester)) ?u = Inr content"
    using resp by (simp add: env new_harvester_def)
  have j: "path_join ''dl'' ''Report_1700000000.pdf'' = ''dl/Report_1700000000.pdf''"
    by code_simp
  have rej': "\<not> prefix ''%PDF'' content
      \<or> (can_write e (path_join ''dl'' ''Report_1700000000.pdf'') \<and> length content < 1000)"
    using rej by (simp add: env example_env_def)
  have dbw: "db_writable e"
    by (simp add: env example_env_def)
  have scan: "scan_url_for_pdfs e new_harvester ''https://x.test/stub'' ''dl'' ''Report''
      = scan_candidate e ''https://x.test/stub'' ''dl'' ''Report'' ?u ([], new_harvester)"
    by (simp add: scan_url_for_pdfs_def env example_env_def)
  note S = scan_candidate_rejected [OF new gen resp' rej' dbw, of "''https://x.test/stub''" "[]"]
  show "harvested_pdfs (db (snd (scan_url_for_pdfs e new_harvester ''https://x.test/stub'' ''dl'' ''Report'')))
         = [\<lparr>row_id = 1, url = ''https://x.test/small.pdf'', filename = ''Report'', file_size = 0,
             file_hash = ''fbd0d402ba8a0f67f42c4356b720258c'', source_feed = ''streamlit_app'',
             harvest_date = 1700000000000001, status = ''failed'', article_title = ''Report'',
             article_url = ''https://x.test/stub''\<rparr>]"
    unfolding scan S(1)
    by (simp add: insert_or_replace_def new_harvester_def init_database_def env example_env_def)
  show "files (snd (scan_url_for_pdfs e new_harvester ''https://x.test/stub'' ''dl'' ''Report''))
         = (if \<not> prefix ''%PDF'' content then Map.empty
            else if rm ''dl/Report_1700000000.pdf'' then Map.empty
            else [''dl/Report_1700000000.pdf'' \<mapsto> content])"
    unfolding scan S(2) j
    by (simp add: new_harvester_def env)
qed

text \<open>
  C7, as the claim states it, fails. The table has no column for a reason: a new
  harvester that scans the page \<open>stub\<close> writes the same row for \<open>small.pdf\<close> when the
  server answers with 8 bytes that start with \<open>%PDF\<close> (too small) and when it answers
  with an HTML page (not a PDF). And when \<open>os.remove\<close> fails, the file that is too small
  stays on disk.
\<close>

theorem C7_no_reason_recorded_counterexample:
  "http_get example_env 0 ''https://x.test/small.pdf'' = Inr ''%PDF-1.4''
   \<and> http_get html_env 0 ''https://x.test/small.pdf'' = Inr ''<html></html>''
   \<and> harvested_pdfs (db (snd (scan_url_for_pdfs example_env new_harvester
         ''https://x.test/stub'' ''dl'' ''Report'')))
     = [\<lparr>row_id = 1, url = ''https://x.test/small.pdf'', filename = ''Report'', file_size = 0,
         file_hash = ''fbd0d402ba8a0f67f42c4356b720258c'', source_feed = ''streamlit_app'',
         harvest_date = 1700000000000001, status = ''failed'', article_title = ''Report'',
         article_url = ''https://x.test/stub''\<rparr>]
   \<and> harvested_pdfs (db (snd (scan_url_for_pdfs html_env new_harvester
         ''https://x.test/stub'' ''dl'' ''Report'')))
     = [\<lparr>row_id = 1, url = ''https://x.test/small.pdf'', filename = ''Report'', file_size = 0,
         file_hash = ''fbd0d402ba8a0f67f42c4356b720258c'', source_feed = ''streamlit_app'',
         harvest_date = 1700000000000001, status = ''failed'', article_title = ''Report'',
         article_url = ''https://x.test/stub''\<rparr>]
   \<and> files (snd (scan_url_for_pdfs stuck_env new_harvester ''https://x.test/stub'' ''dl'' ''Report''))
         ''dl/Report_1700000000.pdf''
     = Some ''%PDF-1.4''"
proof -
  have e1: "example_env = example_env\<lparr>http_get := http_get example_env,
                                        can_remove := can_remove example_env\<rparr>"
    by simp
  have e2: "html_env = example_env\<lparr>http_get := (\<lambda>n u. Inr ''<html></html>''),
                                     can_remove := can_remove example_env\<rparr>"
    by (simp add: html_env_def)
  have e3: "stuck_env = example_env\<lparr>http_get := http_get example_env,
                                      can_remove := (\<lambda>p. False)\<rparr>"
    by (simp add: stuck_env_def)
  have r1: "http_get example_env 0 ''https://x.test/small.pdf'' = Inr ''%PDF-1.4''"
    by (simp add: example_env_def)
  have r2: "http_get html_env 0 ''https://x.test/small.pdf'' = Inr ''<html></html>''"
    by (simp add: html_env_def)
  have small: "\<not> prefix ''%PDF'' ''%PDF-1.4'' \<or> length ''%PDF-1.4'' < 1000"
    by simp
  have html: "\<not> prefix ''%PDF'' ''<html></html>'' \<or> length ''<html></html>'' < 1000"
    by simp
  have p: "prefix ''%PDF'' ''%PDF-1.4''"
    by simp
  note A = scan_stub(1) [OF e1 r1 small]
  have B: "harvested_pdfs (db (snd (scan_url_for_pdfs html_env new_harvester
         ''https://x.test/stub'' ''dl'' ''Report'')))
     = [\<lparr>row_id = 1, url = ''https://x.test/small.pdf'', filename = ''Report'', file_size = 0,
         file_hash = ''fbd0d402ba8a0f67f42c4356b720258c'', source_feed = ''streamlit_app'',
         harvest_date = 1700000000000001, status = ''failed'', article_title = ''Report'',
         article_url = ''https://x.test/stub''\<rparr>]"
    by (rule scan_stub(1) [OF e2 _ html]) simp
  have C: "files (snd (scan_url_for_pdfs stuck_env new_harvester ''https://x.test/stub'' ''dl'' ''Report''))
         ''dl/Report_1700000000.pdf'' = Some ''%PDF-1.4''"
    using scan_stub(2) [OF e3 r1 small] p by simp
  from r1 r2 A B C show ?thesis by simp
qed

text \<open>
  C7 (amended). Let the loop of a scan reach the candidate \<open>u\<close>, not yet in
  \<open>downloaded_urls\<close>, and let the bytes downloaded for \<open>u\<close> be rejected: they do not
  start with \<open>%PDF\<close>, or they were written to the file and are shorter than 1000
  bytes. Then, with a database that accepts the write, the scan ends with exactly one
  row for \<open>u\<close>, of status \<open>failed\<close>, none of whose columns depends on the cause, and with
  \<open>u\<close> in \<open>failed_urls\<close>. The cause is only shown, as a warning that names it. Bytes
  without the header are never written, so the disk is as it was; a file that is too
  small is removed when \<open>os.remove\<close> succeeds, and when it fails the file stays and the
  message is the one of a failed download.
\<close>

theorem C7_signature_rejection:
  fixes e page_url download_dir title pre w
  defines "reached \<equiv> scan_loop e page_url download_dir title pre ([], w)"
  defines "step u \<equiv> scan_candidate e page_url download_dir title u reached"
  assumes cands: "page_candidates e page_url = Inr (pre @ u # post)"
    and post: "u \<notin> set post"
    and mk: "can_makedirs e download_dir"
    and new: "u \<notin> downloaded_urls (snd reached)"
    and gen: "generate_filename e (snd reached) u title = (Inr fname, w1)"
    and resp: "http_get e (length (requested (snd reached))) u = Inr content"
    and rej: "\<not> prefix ''%PDF'' content
              \<or> (can_write e (path_join download_dir fname) \<and> length content < 1000)"
    and dbw: "db_writable e"
  shows "(\<exists>n. filter (\<lambda>r. url r = u)
              (harvested_pdfs (db (snd (scan_url_for_pdfs e w page_url download_dir title))))
            = [\<lparr>row_id = n, url = u, filename = title, file_size = 0,
                file_hash = md5_hexdigest e u, source_feed = ''streamlit_app'',
                harvest_date = clock e (clock_reads w1), status = ''failed'',
                article_title = title, article_url = page_url\<rparr>])
       \<and> u \<in> failed_urls (snd (scan_url_for_pdfs e w page_url download_dir title))
       \<and> shown (snd (step u))
         = shown (snd reached)
           @ [Info_download u,
              if \<not> prefix ''%PDF'' content then Warning_non_pdf u
              else if can_remove e (path_join download_dir fname) then Warning_too_small fname
              else Error_download u OSError]
       \<and> files (snd (step u))
         = (if \<not> prefix ''%PDF'' content then files (snd reached)
            else if can_remove e (path_join download_dir fname)
            then (files (snd reached))(path_join download_dir fname := None)
            else (files (snd reached))(path_join download_dir fname \<mapsto> content))"
proof -
  obtain dl wb where b: "reached = (dl, wb)" by (cases reached)
  from new b have new': "u \<notin> downloaded_urls wb" by simp
  from gen b have gen': "generate_filename e wb u title = (Inr fname, w1)" by simp
  from resp b have resp': "http_get e (length (requested wb)) u = Inr content" by simp
  note S = scan_candidate_rejected [OF new' gen' resp' rej dbw, of page_url dl]
  have st: "step u = scan_candidate e page_url download_dir title u (dl, wb)"
    by (simp add: step_def b)
  have final: "scan_url_for_pdfs e w page_url download_dir title
      = scan_loop e page_url download_dir title post (step u)"
    unfolding step_def reached_def
    using cands mk by (simp add: scan_url_for_pdfs_def scan_loop_append)
  have rows: "\<exists>n. filter (\<lambda>r. url r = u) (harvested_pdfs (db (snd (step u))))
            = [\<lparr>row_id = n, url = u, filename = title, file_size = 0,
                file_hash = md5_hexdigest e u, source_feed = ''streamlit_app'',
                harvest_date = clock e (clock_reads w1), status = ''failed'',
                article_title = title, article_url = page_url\<rparr>]"
    unfolding st S(1) by (simp add: insert_or_replace_def Let_def)
  have 1: "\<exists>n. filter (\<lambda>r. url r = u)
              (harvested_pdfs (db (snd (scan_url_for_pdfs e w page_url download_dir title))))
            = [\<lparr>row_id = n, url = u, filename = title, file_size = 0,
                file_hash = md5_hexdigest e u, source_feed = ''streamlit_app'',
                harvest_date = clock e (clock_reads w1), status = ''failed'',
                article_title = title, article_url = page_url\<rparr>]"
    using rows by (simp add: final scan_loop_other_rows [OF post])
  have "u \<in> failed_urls (snd (step u))"
    unfolding st S(4) by simp
  with scan_loop_failed_urls [of "step u" e page_url download_dir title post]
  have 2: "u \<in> failed_urls (snd (scan_url_for_pdfs e w page_url download_dir title))"
    by (auto simp: final)
  have 3: "shown (snd (step u))
         = shown (snd reached)
           @ [Info_download u,
              if \<not> prefix ''%PDF'' content then Warning_non_pdf u
              else if can_remove e (path_join download_dir fname) then Warning_too_small fname
              else Error_download u OSError]"
    unfolding st S(3) by (simp add: b)
  have 4: "files (snd (step u))
         = (if \<not> prefix ''%PDF'' content then files (snd reached)
            else if can_remove e (path_join download_dir fname)
            then (files (snd reached))(path_join download_dir fname := None)
            else (files (snd reached))(path_join download_dir fname \<mapsto> content))"
    unfolding st S(2) by (simp add: b)
  from 1 2 3 4 show ?thesis by blast
qed

theorem C7_signature_rejection_witness:
  "map status (filter (\<lambda>r. url r = ''https://x.test/small.pdf'')
     (harvested_pdfs (db (snd (scan_url_for_pdfs example_env new_harvester
        ''https://x.test/article'' ''dl'' ''Report'')))))
   = [''failed'']
   \<and> ''https://x.test/small.pdf''
       \<in> failed_urls (snd (scan_url_for_pdfs example_env new_harvester
            ''https://x.test/article'' ''dl'' ''Report''))"
proof -
  let ?reached = "scan_loop example_env ''https://x.test/article'' ''dl'' ''Report''
                    [''https://x.test/a.pdf''] ([], new_harvester)"
  have cands: "page_candidates example_env ''https://x.test/article''
      = Inr ([''https://x.test/a.pdf''] @ ''https://x.test/small.pdf'' # [''https://x.test/page.pdf''])"
    by (simp add: example_env_def)
  have post: "''https://x.test/small.pdf'' \<notin> set [''https://x.test/page.pdf'']"
    by simp
  have mk: "can_makedirs example_env ''dl''"
    by (simp add: example_env_def)
  have new: "''https://x.test/small.pdf'' \<notin> downloaded_urls (snd ?reached)"
    using scan_loop_downloaded_urls [of example_env "''https://x.test/article''" "''dl''" "''Report''"
        "[''https://x.test/a.pdf'']" "([], new_harvester)"]
    by (auto simp: new_harvester_def)
  obtain fname where gen: "generate_filename example_env (snd ?reached) ''https://x.test/small.pdf'' ''Report''
      = (Inr fname, (snd ?reached)\<lparr>clock_reads := Suc (clock_reads (snd ?reached))\<rparr>)"
    using generate_filename_title [of "''Report''" example_env "snd ?reached" "''https://x.test/small.pdf''"]
    by auto
  have resp: "http_get example_env (length (requested (snd ?reached))) ''https://x.test/small.pdf''
      = Inr ''%PDF-1.4''"
    by (simp add: example_env_def)
  have rej: "\<not> prefix ''%PDF'' ''%PDF-1.4''
      \<or> (can_write example_env (path_join ''dl'' fname) \<and> length ''%PDF-1.4'' < 1000)"
    by (simp add: example_env_def)
  have dbw: "db_writable example_env"
    by (simp add: example_env_def)
  from C7_signature_rejection [OF cands post mk new gen resp rej dbw]
  obtain n where rows: "filter (\<lambda>r. url r = ''https://x.test/small.pdf'')
       (harvested_pdfs (db (snd (scan_url_for_pdfs example_env new_harvester
          ''https://x.test/article'' ''dl'' ''Report''))))
     = [\<lparr>row_id = n, url = ''https://x.test/small.pdf'', filename = ''Report'', file_size = 0,
         file_hash = md5_hexdigest example_env ''https://x.test/small.pdf'',
         source_feed = ''streamlit_app'',
         harvest_date = clock example_env
           (clock_reads ((snd ?reached)\<lparr>clock_reads := Suc (clock_reads (snd ?reached))\<rparr>)),
         status = ''failed'', article_title = ''Report'',
         article_url = ''https://x.test/article''\<rparr>]"
    and failed: "''https://x.test/small.pdf''
       \<in> failed_urls (snd (scan_url_for_pdfs example_env new_harvester
            ''https://x.test/article'' ''dl'' ''Report''))"
    by blast
  from rows have "map status (filter (\<lambda>r. url r = ''https://x.test/small.pdf'')
     (harvested_pdfs (db (snd (scan_url_for_pdfs example_env new_harvester
        ''https://x.test/article'' ''dl'' ''Report''))))) = [''failed'']"
    by simp
  with failed show ?thesis by simp
qed

lemma example_generate_filename:
  "generate_filename example_env new_harvester ''https://x.test/a.pdf'' ''Report''
   = (Inr ''Report_1700000000.pdf'', new_harvester\<lparr>clock_reads := Suc (clock_reads new_harvester)\<rparr>)"
proof -
  have a: "strip (filter safe_title_char ''Report'') = ''Report''"
    by code_simp
  have b: "str_int 1700000000 = ''1700000000''"
    by code_simp
  have c: "clock example_env (clock_reads new_harvester) div 1000000 = 1700000000"
    by (simp add: example_env_def new_harvester_def)
  show ?thesis
    unfolding generate_filename_def read_clock_def Let_def prod.case a c b by simp
qed

text \<open>
  C8 fails on the code: \<open>_log_to_database\<close> is not given the generated file name and
  writes the article title into the column \<open>filename\<close>. A scan of the page \<open>single\<close>
  with the title \<open>Report\<close> downloads \<open>a.pdf\<close> to the file
  \<open>dl/Report_1700000000.pdf\<close>, and the \<open>success\<close> row for it has the \<open>filename\<close>
  \<open>Report\<close>.
\<close>

theorem C8_filename_column_holds_title:
  "fst (scan_url_for_pdfs example_env new_harvester ''https://x.test/single'' ''dl'' ''Report'')
     = [''https://x.test/a.pdf'']
   \<and> files (snd (scan_url_for_pdfs example_env new_harvester ''https://x.test/single'' ''dl'' ''Report''))
     = [''dl/Report_1700000000.pdf'' \<mapsto> ''%PDF'' @ replicate 996 CHR ''x'']
   \<and> map filename (filter (\<lambda>r. url r = ''https://x.test/a.pdf'')
        (harvested_pdfs (db (snd (scan_url_for_pdfs example_env new_harvester
           ''https://x.test/single'' ''dl'' ''Report'')))))
     = [''Report'']
   \<and> map status (filter (\<lambda>r. url r = ''https://x.test/a.pdf'')
        (harvested_pdfs (db (snd (scan_url_for_pdfs example_env new_harvester
           ''https://x.test/single'' ''dl'' ''Report'')))))
     = [''success'']"
proof -
  let ?u = "''https://x.test/a.pdf''"
  let ?content = "''%PDF'' @ replicate 996 CHR ''x''"
  obtain ok wd where d: "download_pdf_advanced example_env new_harvester ?u ''dl'' ''Report'' = (ok, wd)"
    by (cases "download_pdf_advanced example_env new_harvester ?u ''dl'' ''Report''")
  have resp: "http_get example_env (length (requested new_harvester)) ?u = Inr ?content"
    by (simp add: example_env_def)
  have p: "prefix ''%PDF'' ?content" and l: "1000 \<le> length ?content"
    by simp_all
  have j: "path_join ''dl'' ''Report_1700000000.pdf'' = ''dl/Report_1700000000.pdf''"
    by code_simp
  have wr: "can_write example_env (path_join ''dl'' ''Report_1700000000.pdf'')"
    by (simp add: example_env_def)
  note A = download_accepted [OF example_generate_filename resp p l wr]
  from A(1) d have ok: "ok = True" by simp
  from A(3) d j have fi: "files wd = [''dl/Report_1700000000.pdf'' \<mapsto> ?content]"
    by (simp add: new_harvester_def)
  have new: "?u \<notin> downloaded_urls new_harvester"
    by (simp add: new_harvester_def)
  let ?logged = "log_to_database example_env (wd\<lparr>downloaded_urls := insert ?u (downloaded_urls wd)\<rparr>)
                   ?u ''Report'' ''https://x.test/single'' ''success''"
  have scan: "scan_url_for_pdfs example_env new_harvester ''https://x.test/single'' ''dl'' ''Report''
      = ([?u], ?logged)"
    using scan_candidate_try [OF new d, of "''https://x.test/single''" "[]"] ok
    by (simp add: scan_url_for_pdfs_def example_env_def)
  have dbw: "db_writable example_env"
    by (simp add: example_env_def)
  from log_to_database_rows [OF dbw, of ?u "wd\<lparr>downloaded_urls := insert ?u (downloaded_urls wd)\<rparr>"
      "''Report''" "''https://x.test/single''" "''success''"]
  obtain n where rows: "filter (\<lambda>r. url r = ?u) (harvested_pdfs (db ?logged))
      = [\<lparr>row_id = n, url = ?u, filename = ''Report'', file_size = 0,
          file_hash = md5_hexdigest example_env ?u, source_feed = ''streamlit_app'',
          harvest_date = clock example_env
            (clock_reads (wd\<lparr>downloaded_urls := insert ?u (downloaded_urls wd)\<rparr>)),
          status = ''success'', article_title = ''Report'',
          article_url = ''https://x.test/single''\<rparr>]"
    by blast
  from rows have 3: "map filename (filter (\<lambda>r. url r = ?u) (harvested_pdfs (db ?logged))) = [''Report'']"
    and 4: "map status (filter (\<lambda>r. url r = ?u) (harvested_pdfs (db ?logged))) = [''success'']"
    by simp_all
  have 2: "files ?logged = [''dl/Report_1700000000.pdf'' \<mapsto> ?content]"
    using fi by (simp add: log_to_database_keeps)
  from 2 3 4 show ?thesis
    unfolding scan by simp
qed

section \<open>Properties of the extraction strategies\<close>

text \<open>
  C5 fails on the code: \<open>_find_pdf_in_json\<close> tests for a string only on the values of
  a mapping. A string that is an item of a list, or the whole JSON value, reaches the
  recursive call, which returns the empty set for it. For the JSON value
  \<open>{"files": ["/docs/a.pdf"]}\<close> the walk yields nothing, whatever \<open>urljoin\<close> is, and so
  does the scan of a script whose body parses to that value; the same string as the
  value of a key is found.
\<close>

theorem C5_string_in_list_is_missed:
  "has_pdf_text (PStr ''/docs/a.pdf'')
   \<and> find_pdf_in_json uj (PDict [(''files'', PList [PStr ''/docs/a.pdf''])]) base_url = Inr {}
   \<and> find_pdf_in_json uj (PList [PStr ''/docs/a.pdf'']) base_url = Inr {}
   \<and> find_pdf_in_json uj (PStr ''/docs/a.pdf'') base_url = Inr {}
   \<and> extract_from_json_ld (\<lambda>text. Inr (PDict [(''files'', PList [PStr ''/docs/a.pdf''])])) uj
         [body] base_url = {}
   \<and> find_pdf_in_json example_urljoin (PDict [(''file'', PStr ''/docs/a.pdf'')]) ''https://x.test/page''
       = Inr {''https://x.test/docs/a.pdf''}"
proof -
  have a: "has_pdf_text (PStr ''/docs/a.pdf'')"
    by code_simp
  have b: "\<not> has_pdf_text (PList [PStr ''/docs/a.pdf''])"
    by (simp add: has_pdf_text_def)
  have c: "find_pdf_in_json uj (PList [PStr ''/docs/a.pdf'']) base_url = Inr {}"
    by simp
  have d: "find_pdf_in_json uj (PDict [(''files'', PList [PStr ''/docs/a.pdf''])]) base_url = Inr {}"
    using b by simp
  have e: "find_pdf_in_json uj (PStr ''/docs/a.pdf'') base_url = Inr {}"
    by simp
  have f: "extract_from_json_ld (\<lambda>text. Inr (PDict [(''files'', PList [PStr ''/docs/a.pdf''])])) uj
         [body] base_url = {}"
    using d by (simp add: extract_from_json_ld_def)
  have g: "find_pdf_in_json example_urljoin (PDict [(''file'', PStr ''/docs/a.pdf'')]) ''https://x.test/page''
       = Inr {''https://x.test/docs/a.pdf''}"
    using a by (simp add: add_joined_def example_urljoin_def py_str_def)
  from a c d e f g show ?thesis by simp
qed








end
